theory Spec2Isabelle
  imports Main "HOL-Library.Word" "HOL-Library.Char_ord" "HOL-Library.List_Lexorder"
    "HOL-Library.Multiset"
begin

unbundle bit_operations_syntax

section \<open>citus\_tools.c: running commands on worker nodes\<close>

text \<open>
  A shallow embedding of \<^verbatim>\<open>src/backend/distributed/operations/citus_tools.c\<close>.
  C strings and \<^verbatim>\<open>StringInfo\<close> buffers are character lists, \<^verbatim>\<open>appendStringInfo\<close>
  is list append, the four-byte integers of the file are 32-bit words, arrays are
  lists read by index. What libpq and the connection layer answer is data of the
  model (a script per connection), so that every theorem holds for whatever the
  network does.
\<close>

subsection \<open>Query results (libpq's PGresult)\<close>

datatype ExecStatusType =
    PGRES_EMPTY_QUERY
  | PGRES_COMMAND_OK
  | PGRES_TUPLES_OK
  | PGRES_COPY_OUT
  | PGRES_COPY_IN
  | PGRES_BAD_RESPONSE
  | PGRES_NONFATAL_ERROR
  | PGRES_FATAL_ERROR

text \<open>
  A result has a status, a command tag, a number of columns and its rows; a cell is
  \<open>None\<close> for SQL NULL. A \<^verbatim>\<open>PGresult *\<close> may be \<^verbatim>\<open>NULL\<close>, hence the accessors
  below take a \<open>PGresult option\<close>.
\<close>

record PGresult =
  resultStatus :: ExecStatusType
  cmdStatus :: string
  numAttributes :: nat
  tuples :: "string option list list"

text \<open>libpq answers \<^verbatim>\<open>PGRES_FATAL_ERROR\<close> for a \<^verbatim>\<open>NULL\<close> result.\<close>

definition PQresultStatus :: "PGresult option \<Rightarrow> ExecStatusType" where
  "PQresultStatus res = (case res of None \<Rightarrow> PGRES_FATAL_ERROR | Some r \<Rightarrow> resultStatus r)"

definition PQcmdStatus :: "PGresult option \<Rightarrow> string" where
  "PQcmdStatus res = (case res of None \<Rightarrow> [] | Some r \<Rightarrow> cmdStatus r)"

definition PQntuples :: "PGresult option \<Rightarrow> nat" where
  "PQntuples res = (case res of None \<Rightarrow> 0 | Some r \<Rightarrow> length (tuples r))"

definition PQnfields :: "PGresult option \<Rightarrow> nat" where
  "PQnfields res = (case res of None \<Rightarrow> 0 | Some r \<Rightarrow> numAttributes r)"

text \<open>
  The cell at a row and column, when both are in range. libpq's \<^verbatim>\<open>PQgetisnull\<close>
  answers 1 (``pretend it is null'') for a row or column out of range, and
  \<^verbatim>\<open>PQgetvalue\<close> gives the empty string for a NULL cell.
\<close>

definition pgresult_cell :: "PGresult option \<Rightarrow> nat \<Rightarrow> nat \<Rightarrow> string option" where
  "pgresult_cell res tup_num field_num =
     (case res of
        None \<Rightarrow> None
      | Some r \<Rightarrow>
          if tup_num < length (tuples r) \<and> field_num < numAttributes r
              \<and> field_num < length (tuples r ! tup_num)
          then tuples r ! tup_num ! field_num
          else None)"

definition PQgetisnull :: "PGresult option \<Rightarrow> nat \<Rightarrow> nat \<Rightarrow> bool" where
  "PQgetisnull res tup_num field_num = (pgresult_cell res tup_num field_num = None)"

definition PQgetvalue :: "PGresult option \<Rightarrow> nat \<Rightarrow> nat \<Rightarrow> string" where
  "PQgetvalue res tup_num field_num =
     (case pgresult_cell res tup_num field_num of None \<Rightarrow> [] | Some v \<Rightarrow> v)"

subsection \<open>Connections\<close>

datatype ConnStatusType =
    CONNECTION_OK
  | CONNECTION_BAD
  | CONNECTION_STARTED
  | CONNECTION_MADE
  | CONNECTION_AWAITING_RESPONSE

text \<open>
  What one libpq connection does when the code drives it. The fields are the answers
  of the calls the file makes on \<^verbatim>\<open>connection->pgConn\<close>:
  \<^item> \<open>establishedStatus\<close>: \<^verbatim>\<open>PQstatus\<close> once \<^verbatim>\<open>GetNodeConnection\<close> or
    \<^verbatim>\<open>FinishConnectionEstablishment\<close> has returned;
  \<^item> \<open>querySent\<close>: the \<^verbatim>\<open>int\<close> that \<^verbatim>\<open>SendRemoteCommand\<close> returns (0 on failure);
  \<^item> \<open>errorMessage\<close>: \<^verbatim>\<open>PQerrorMessage\<close>, \<open>None\<close> for a \<^verbatim>\<open>NULL\<close> pointer;
  \<^item> \<open>remoteCommandResult\<close>: \<^verbatim>\<open>GetRemoteCommandResult(connection, raiseInterrupts)\<close>
    with \<^verbatim>\<open>raiseInterrupts = true\<close>: \<open>None\<close> when the wait is interrupted and the
    cancellation is raised inside the call, otherwise the result pointer it returns;
  \<^item> \<open>pollStatus k\<close>, \<open>consumeInput k\<close>, \<open>isBusy k\<close>, \<open>getResult k\<close>: the answers
    of \<^verbatim>\<open>PQstatus\<close>, \<^verbatim>\<open>PQconsumeInput\<close>, \<^verbatim>\<open>PQisBusy\<close> and \<^verbatim>\<open>PQgetResult\<close> at the
    \<open>k\<close>-th sweep of the parallel poll loop.
\<close>

record PGconn =
  establishedStatus :: ConnStatusType
  querySent :: int
  errorMessage :: "string option"
  remoteCommandResult :: "PGresult option option"
  pollStatus :: "nat \<Rightarrow> ConnStatusType"
  consumeInput :: "nat \<Rightarrow> int"
  isBusy :: "nat \<Rightarrow> int"
  getResult :: "nat \<Rightarrow> PGresult option"

text \<open>
  A \<^verbatim>\<open>MultiConnection\<close>: the libpq connection, the node it was opened to, the
  connection flags it was asked with and the index of the command (or source node)
  it was opened for, which identifies it in the connection log.
\<close>

record MultiConnection =
  pgConn :: PGconn
  hostname :: string
  port :: "32 word"
  connectionFlags :: int
  connectionId :: nat

definition PQerrorMessage :: "PGconn \<Rightarrow> string option" where
  "PQerrorMessage conn = errorMessage conn"

subsection \<open>StoreErrorMessage\<close>

definition newline :: char where
  "newline = CHR 0x0A"

text \<open>\<^verbatim>\<open>strchr\<close>: the position of the first occurrence of a character, if any.\<close>

fun strchr :: "string \<Rightarrow> char \<Rightarrow> nat option" where
  "strchr [] c = None"
| "strchr (x # xs) c = (if x = c then Some 0 else map_option Suc (strchr xs c))"

text \<open>
  Writing \<^verbatim>\<open>'\0'\<close> at \<open>firstNewlineIndex\<close> cuts the C string there: what
  \<^verbatim>\<open>%s\<close> then prints is the text before that position.
\<close>

definition StoreErrorMessage :: "MultiConnection \<Rightarrow> string \<Rightarrow> string" where
  "StoreErrorMessage connection queryResultString =
     (let errorMessage =
        (case PQerrorMessage (pgConn connection) of
           Some msg \<Rightarrow>
             (case strchr msg newline of
                Some firstNewlineIndex \<Rightarrow> take firstNewlineIndex msg
              | None \<Rightarrow> msg)
         | None \<Rightarrow> ''An error occurred while running the query'')
      in queryResultString @ errorMessage)"

subsection \<open>EvaluateQueryResult\<close>

text \<open>The pair returned is the \<^verbatim>\<open>bool\<close> result and the updated \<^verbatim>\<open>queryResultString\<close>.\<close>

definition EvaluateQueryResult ::
  "MultiConnection \<Rightarrow> PGresult option \<Rightarrow> string \<Rightarrow> bool \<times> string" where
  "EvaluateQueryResult connection queryResult queryResultString =
     (let resultStatus = PQresultStatus queryResult in
      if resultStatus = PGRES_COMMAND_OK then
        (let commandStatus = PQcmdStatus queryResult
         in (True, queryResultString @ commandStatus))
      else if resultStatus = PGRES_TUPLES_OK then
        (let ntuples = PQntuples queryResult;
             nfields = PQnfields queryResult
         in if nfields \<noteq> 1 then
              (False, queryResultString @ ''expected a single column in query target'')
            else if ntuples > 1 then
              (False, queryResultString @ ''expected a single row in query result'')
            else if \<not> PQgetisnull queryResult 0 0 then
              (True, queryResultString @ PQgetvalue queryResult 0 0)
            else (True, queryResultString))
      else (False, StoreErrorMessage connection queryResultString))"

subsection \<open>Formatting\<close>

text \<open>\<^verbatim>\<open>%d\<close> of \<^verbatim>\<open>appendStringInfo\<close>: the decimal digits of a signed integer.\<close>

fun decimal_digits :: "nat \<Rightarrow> string" where
  "decimal_digits n =
     (if n < 10 then [''0123456789'' ! n]
      else decimal_digits (n div 10) @ [''0123456789'' ! (n mod 10)])"

declare decimal_digits.simps [simp del]

definition format_d :: "int \<Rightarrow> string" where
  "format_d i = (if i < 0 then CHR ''-'' # decimal_digits (nat (- i)) else decimal_digits (nat i))"

subsection \<open>Constants of the headers\<close>

text \<open>
  \<^verbatim>\<open>FORCE_NEW_CONNECTION\<close> is declared in \<^verbatim>\<open>distributed/connection_management.h\<close>,
  the response codes in \<^verbatim>\<open>distributed/remote_commands.h\<close>; the other constants are
  PostgreSQL's (\<^verbatim>\<open>funcapi.h\<close>, \<^verbatim>\<open>catalog/pg_type.h\<close>). The values are those of the
  headers. The properties below use of them only that the flag is a single bit, so
  that it differs from the empty flag set 0, and that the response codes and the type
  identifiers differ from one another.
\<close>

definition FORCE_NEW_CONNECTION :: int where
  "FORCE_NEW_CONNECTION = 1"

definition RESPONSE_OKAY :: int where
  "RESPONSE_OKAY = 0"

definition QUERY_SEND_FAILED :: int where
  "QUERY_SEND_FAILED = 1"

definition RESPONSE_NOT_OKAY :: int where
  "RESPONSE_NOT_OKAY = 2"

definition SFRM_Materialize :: int where
  "SFRM_Materialize = 2"

definition BOOLOID :: nat where
  "BOOLOID = 16"

definition INT4OID :: nat where
  "INT4OID = 23"

definition TEXTOID :: nat where
  "TEXTOID = 25"

subsection \<open>Errors, the environment and the connection log\<close>

text \<open>
  \<^verbatim>\<open>ereport(ERROR, ...)\<close> leaves the function; it is the \<open>Inl\<close> branch of a result.
  \<open>CitusVersionMismatch\<close> is what \<^verbatim>\<open>CheckCitusVersion(ERROR)\<close> raises,
  \<open>QueryCanceled\<close> what \<^verbatim>\<open>CHECK_FOR_INTERRUPTS()\<close> raises when a cancellation is
  pending.
\<close>

datatype sqlstate = ERRCODE_SYNTAX_ERROR | ERRCODE_INVALID_COLUMN_DEFINITION

datatype error =
    ErrorReport sqlstate string
  | CitusVersionMismatch
  | QueryCanceled

datatype conn_event =
    ConnectionOpened nat int string "32 word"
  | CommandSent nat string
  | ConnectionClosed nat

record WorkerNode =
  workerName :: string
  workerPort :: "32 word"

text \<open>
  What surrounds the file:
  \<^item> \<open>citusVersionOk\<close>: \<^verbatim>\<open>CheckCitusVersion(ERROR)\<close> returns;
  \<^item> \<open>network i\<close>: the script of the connection opened for command \<open>i\<close> (for source
    node \<open>i\<close> in the connectivity checks);
  \<^item> \<open>interruptPending k\<close>: a cancellation is pending at the \<open>k\<close>-th
    \<^verbatim>\<open>CHECK_FOR_INTERRUPTS()\<close> of an executor;
  \<^item> \<open>activeReadableNodeList\<close>: what \<^verbatim>\<open>ActiveReadableNodeList()\<close> returns;
  \<^item> \<open>executeOptionalRemoteCommand\<close>: the code returned by
    \<^verbatim>\<open>ExecuteOptionalRemoteCommand\<close> on a connection and a command, with the result
    it stores through its last argument;
  \<^item> \<open>parseBoolField\<close>: \<^verbatim>\<open>ParseBoolField(result, rowIndex, columnIndex)\<close>.
\<close>

record environment =
  citusVersionOk :: bool
  network :: "nat \<Rightarrow> PGconn"
  interruptPending :: "nat \<Rightarrow> bool"
  activeReadableNodeList :: "WorkerNode list"
  executeOptionalRemoteCommand :: "MultiConnection \<Rightarrow> string \<Rightarrow> int \<times> PGresult option"
  parseBoolField :: "PGresult option \<Rightarrow> nat \<Rightarrow> nat \<Rightarrow> bool"

text \<open>
  \<^verbatim>\<open>StartNodeConnection\<close> and \<^verbatim>\<open>GetNodeConnection\<close> hand out the connection for a slot;
  the caller logs the opening.
\<close>

definition StartNodeConnection ::
  "environment \<Rightarrow> nat \<Rightarrow> int \<Rightarrow> string \<Rightarrow> 32 word \<Rightarrow> MultiConnection" where
  "StartNodeConnection env connId flags nodeName nodePort =
     \<lparr>pgConn = network env connId, hostname = nodeName, port = nodePort,
      connectionFlags = flags, connectionId = connId\<rparr>"

definition GetNodeConnection ::
  "environment \<Rightarrow> nat \<Rightarrow> int \<Rightarrow> string \<Rightarrow> 32 word \<Rightarrow> MultiConnection" where
  "GetNodeConnection env connId flags nodeName nodePort =
     StartNodeConnection env connId flags nodeName nodePort"

subsection \<open>The sequential executor\<close>

text \<open>
  \<^verbatim>\<open>ExecuteRemoteQueryOrCommand\<close> gives its \<^verbatim>\<open>bool\<close> (or the cancellation raised
  while waiting for the result), the updated result string and the connection events
  of the call.
\<close>

definition ExecuteRemoteQueryOrCommand ::
  "environment \<Rightarrow> nat \<Rightarrow> string \<Rightarrow> 32 word \<Rightarrow> string \<Rightarrow> string
     \<Rightarrow> (error + bool) \<times> string \<times> conn_event list" where
  "ExecuteRemoteQueryOrCommand env connId nodeName nodePort queryString queryResultString =
     (let connectionFlags = FORCE_NEW_CONNECTION;
          connection = GetNodeConnection env connId connectionFlags nodeName nodePort;
          opened = [ConnectionOpened connId connectionFlags nodeName nodePort]
      in if establishedStatus (pgConn connection) \<noteq> CONNECTION_OK then
           (Inr False,
            queryResultString @ ''failed to connect to '' @ nodeName @ '':''
              @ format_d (sint nodePort),
            opened)
         else if querySent (pgConn connection) = 0 then
           (Inr False,
            queryResultString @ ''failed to send query to '' @ nodeName @ '':''
              @ format_d (sint nodePort),
            opened @ [CommandSent connId queryString])
         else
           (case remoteCommandResult (pgConn connection) of
              None \<Rightarrow>
                (Inl QueryCanceled, queryResultString,
                 opened @ [CommandSent connId queryString])
            | Some queryResult \<Rightarrow>
                (let (success, queryResultString') =
                       EvaluateQueryResult connection queryResult queryResultString
                 in (Inr success, queryResultString',
                     opened @ [CommandSent connId queryString, ConnectionClosed connId]))))"

record executor_state =
  statusArray :: "bool list"
  resultStringArray :: "string list"
  connectionLog :: "conn_event list"

text \<open>
  The \<^verbatim>\<open>for\<close> loop of \<^verbatim>\<open>ExecuteCommandsAndStoreResults\<close> from \<open>commandIndex\<close> on. The
  first component is the error that left the loop, if one did.
\<close>

function ExecuteCommandsAndStoreResults_from ::
  "environment \<Rightarrow> string list \<Rightarrow> 32 word list \<Rightarrow> string list \<Rightarrow> nat \<Rightarrow> nat
     \<Rightarrow> executor_state \<Rightarrow> error option \<times> executor_state" where
  "ExecuteCommandsAndStoreResults_from env nodeNameArray nodePortArray commandStringArray
       commandCount commandIndex st =
     (if commandIndex < commandCount then
        (let nodeName = nodeNameArray ! commandIndex;
             nodePort = nodePortArray ! commandIndex;
             queryString = commandStringArray ! commandIndex;
             queryResultString = resultStringArray st ! commandIndex;
             (success, queryResultString', events) =
                ExecuteRemoteQueryOrCommand env commandIndex nodeName nodePort queryString
                  queryResultString;
             st1 = st\<lparr>resultStringArray :=
                        (resultStringArray st)[commandIndex := queryResultString'],
                      connectionLog := connectionLog st @ events\<rparr>
         in case success of
              Inl e \<Rightarrow> (Some e, st1)
            | Inr ok \<Rightarrow>
                (let st2 = st1\<lparr>statusArray := (statusArray st1)[commandIndex := ok]\<rparr>
                 in if interruptPending env commandIndex then (Some QueryCanceled, st2)
                    else ExecuteCommandsAndStoreResults_from env nodeNameArray nodePortArray
                           commandStringArray commandCount (Suc commandIndex) st2))
      else (None, st))"
  by pat_completeness auto
termination
  by (relation "measure (\<lambda>(env, names, ports, commands, commandCount, commandIndex, st).
        commandCount - commandIndex)") auto

declare ExecuteCommandsAndStoreResults_from.simps [simp del]

definition ExecuteCommandsAndStoreResults ::
  "environment \<Rightarrow> string list \<Rightarrow> 32 word list \<Rightarrow> string list \<Rightarrow> bool list
     \<Rightarrow> string list \<Rightarrow> nat \<Rightarrow> error option \<times> executor_state" where
  "ExecuteCommandsAndStoreResults env nodeNameArray nodePortArray commandStringArray
       statusArray0 resultStringArray0 commandCount =
     ExecuteCommandsAndStoreResults_from env nodeNameArray nodePortArray commandStringArray
       commandCount 0
       \<lparr>statusArray = statusArray0, resultStringArray = resultStringArray0,
        connectionLog = []\<rparr>"

subsection \<open>The parallel executor\<close>

record parallel_state = executor_state +
  connectionArray :: "MultiConnection option list"
  finishedCount :: nat

text \<open>First loop: start connections asynchronously.\<close>

definition start_connection ::
  "environment \<Rightarrow> string list \<Rightarrow> 32 word list \<Rightarrow> nat \<Rightarrow> parallel_state \<Rightarrow> parallel_state" where
  "start_connection env nodeNameArray nodePortArray commandIndex st =
     (let nodeName = nodeNameArray ! commandIndex;
          nodePort = nodePortArray ! commandIndex;
          connectionFlags = FORCE_NEW_CONNECTION
      in st\<lparr>connectionArray := (connectionArray st)[commandIndex :=
                Some (StartNodeConnection env commandIndex connectionFlags nodeName nodePort)],
            connectionLog := connectionLog st @
                [ConnectionOpened commandIndex connectionFlags nodeName nodePort]\<rparr>)"

text \<open>
  Second loop: establish connections. A slot whose connection is not
  \<^verbatim>\<open>CONNECTION_OK\<close> gets its message and status, and its entry of \<open>connectionArray\<close>
  is set to \<^verbatim>\<open>NULL\<close> (\<open>None\<close>). The first loop filled every entry, so the \<open>None\<close> case
  of the entry read here does not arise.
\<close>

definition establish_connection ::
  "string list \<Rightarrow> 32 word list \<Rightarrow> nat \<Rightarrow> parallel_state \<Rightarrow> parallel_state" where
  "establish_connection nodeNameArray nodePortArray commandIndex st =
     (case connectionArray st ! commandIndex of
        None \<Rightarrow> st
      | Some connection \<Rightarrow>
          (let queryResultString = resultStringArray st ! commandIndex;
               nodeName = nodeNameArray ! commandIndex;
               nodePort = nodePortArray ! commandIndex
           in if establishedStatus (pgConn connection) \<noteq> CONNECTION_OK then
                st\<lparr>resultStringArray := (resultStringArray st)[commandIndex :=
                        queryResultString @ ''failed to connect to '' @ nodeName @ '':''
                          @ format_d (sint nodePort)],
                    statusArray := (statusArray st)[commandIndex := False],
                    connectionArray := (connectionArray st)[commandIndex := None],
                    finishedCount := finishedCount st + 1\<rparr>
              else st\<lparr>statusArray := (statusArray st)[commandIndex := True]\<rparr>))"

text \<open>Third loop: send queries at once.\<close>

definition send_query ::
  "string list \<Rightarrow> nat \<Rightarrow> parallel_state \<Rightarrow> parallel_state" where
  "send_query commandStringArray commandIndex st =
     (case connectionArray st ! commandIndex of
        None \<Rightarrow> st
      | Some connection \<Rightarrow>
          (let queryString = commandStringArray ! commandIndex;
               queryResultString = resultStringArray st ! commandIndex;
               querySent = querySent (pgConn connection);
               st1 = st\<lparr>connectionLog := connectionLog st @
                          [CommandSent commandIndex queryString]\<rparr>
           in if querySent = 0 then
                st1\<lparr>resultStringArray := (resultStringArray st1)[commandIndex :=
                         StoreErrorMessage connection queryResultString],
                     statusArray := (statusArray st1)[commandIndex := False],
                     connectionLog := connectionLog st1 @ [ConnectionClosed commandIndex],
                     connectionArray := (connectionArray st1)[commandIndex := None],
                     finishedCount := finishedCount st1 + 1\<rparr>
              else st1))"

text \<open>
  \<^verbatim>\<open>GetConnectionStatusAndResult\<close> at sweep \<open>sweep\<close>: whether the query is finished,
  \<^verbatim>\<open>*resultStatus\<close> and the result string, which is reset first.
\<close>

definition GetConnectionStatusAndResult ::
  "MultiConnection \<Rightarrow> nat \<Rightarrow> string \<Rightarrow> bool \<times> bool \<times> string" where
  "GetConnectionStatusAndResult connection sweep queryResultString =
     (let connectionStatus = pollStatus (pgConn connection) sweep;
          queryResultString0 = []
      in if connectionStatus = CONNECTION_BAD then
           (True, False, queryResultString0 @ ''connection lost'')
         else if consumeInput (pgConn connection) sweep = 0 then
           (True, False, queryResultString0 @ ''query result unavailable'')
         else if isBusy (pgConn connection) sweep \<noteq> 0 then
           (False, False, queryResultString0)
         else
           (let queryResult = getResult (pgConn connection) sweep;
                (success, queryResultString') =
                   EvaluateQueryResult connection queryResult queryResultString0
            in (True, success, queryResultString')))"

text \<open>The body of the \<^verbatim>\<open>for\<close> loop inside the poll loop.\<close>

definition check_query_result :: "nat \<Rightarrow> nat \<Rightarrow> parallel_state \<Rightarrow> parallel_state" where
  "check_query_result sweep commandIndex st =
     (case connectionArray st ! commandIndex of
        None \<Rightarrow> st
      | Some connection \<Rightarrow>
          (let (queryFinished, success, queryResultString') =
                 GetConnectionStatusAndResult connection sweep
                   (resultStringArray st ! commandIndex);
               st1 = st\<lparr>resultStringArray :=
                          (resultStringArray st)[commandIndex := queryResultString']\<rparr>
           in if queryFinished then
                st1\<lparr>finishedCount := finishedCount st1 + 1,
                     statusArray := (statusArray st1)[commandIndex := success],
                     connectionArray := (connectionArray st1)[commandIndex := None],
                     connectionLog := connectionLog st1 @ [ConnectionClosed commandIndex]\<rparr>
              else st1))"

text \<open>
  The \<^verbatim>\<open>while (finishedCount < commandCount)\<close> loop. It has no bound of its own: a
  connection may stay busy for ever. \<open>fuel\<close> bounds the number of sweeps, and \<open>None\<close>
  is the loop still running when the fuel is used up. \<^verbatim>\<open>CHECK_FOR_INTERRUPTS()\<close>
  follows every sweep; \<^verbatim>\<open>pg_usleep\<close> changes nothing the model holds.
\<close>

fun poll_loop ::
  "environment \<Rightarrow> nat \<Rightarrow> nat \<Rightarrow> nat \<Rightarrow> parallel_state
     \<Rightarrow> (error option \<times> parallel_state) option" where
  "poll_loop env commandCount 0 sweep st =
     (if finishedCount st < commandCount then None else Some (None, st))"
| "poll_loop env commandCount (Suc fuel) sweep st =
     (if finishedCount st < commandCount then
        (let st1 = fold (check_query_result sweep) [0..<commandCount] st
         in if interruptPending env sweep then Some (Some QueryCanceled, st1)
            else poll_loop env commandCount fuel (Suc sweep) st1)
      else Some (None, st))"

definition ExecuteCommandsInParallelAndStoreResults ::
  "environment \<Rightarrow> nat \<Rightarrow> string list \<Rightarrow> 32 word list \<Rightarrow> string list \<Rightarrow> bool list
     \<Rightarrow> string list \<Rightarrow> nat \<Rightarrow> (error option \<times> parallel_state) option" where
  "ExecuteCommandsInParallelAndStoreResults env fuel nodeNameArray nodePortArray
       commandStringArray statusArray0 resultStringArray0 commandCount =
     (let st0 = \<lparr>statusArray = statusArray0, resultStringArray = resultStringArray0,
                 connectionLog = [], connectionArray = replicate commandCount None,
                 finishedCount = 0\<rparr>;
          st1 = fold (start_connection env nodeNameArray nodePortArray) [0..<commandCount] st0;
          st2 = fold (establish_connection nodeNameArray nodePortArray) [0..<commandCount] st1;
          st3 = fold (send_query commandStringArray) [0..<commandCount] st2
      in poll_loop env commandCount fuel 0 st3)"

subsection \<open>master\_run\_on\_worker\<close>

record result_row =
  rowNodeName :: string
  rowNodePort :: "32 word"
  rowSuccess :: bool
  rowResult :: string

definition CreateTupleStore ::
  "string list \<Rightarrow> 32 word list \<Rightarrow> bool list \<Rightarrow> string list \<Rightarrow> nat \<Rightarrow> result_row list" where
  "CreateTupleStore nodeNameArray nodePortArray statusArray' resultArray commandCount =
     map (\<lambda>commandIndex.
            \<lparr>rowNodeName = nodeNameArray ! commandIndex,
             rowNodePort = nodePortArray ! commandIndex,
             rowSuccess = statusArray' ! commandIndex,
             rowResult = resultArray ! commandIndex\<rparr>)
         [0..<commandCount]"

text \<open>
  The three array arguments arrive as lists (\<^verbatim>\<open>ArrayObjectCount\<close> is the length,
  \<^verbatim>\<open>DeconstructArrayObject\<close> the elements).
\<close>

definition ParseCommandParameters ::
  "string list \<Rightarrow> 32 word list \<Rightarrow> string list \<Rightarrow> bool
     \<Rightarrow> error + (string list \<times> 32 word list \<times> string list \<times> bool \<times> nat)" where
  "ParseCommandParameters nodeNameArrayObject nodePortArrayObject commandStringArrayObject
       parallelExecution =
     (let nodeNameCount = length nodeNameArrayObject;
          nodePortCount = length nodePortArrayObject;
          commandStringCount = length commandStringArrayObject
      in if nodeNameCount \<noteq> nodePortCount \<or> nodeNameCount \<noteq> commandStringCount then
           Inl (ErrorReport ERRCODE_SYNTAX_ERROR
                  ''expected same number of node name, port, and query string'')
         else
           Inr (map (\<lambda>index. nodeNameArrayObject ! index) [0..<nodeNameCount],
                map (\<lambda>index. nodePortArrayObject ! index) [0..<nodeNameCount],
                map (\<lambda>index. commandStringArrayObject ! index) [0..<nodeNameCount],
                parallelExecution, nodeNameCount))"

text \<open>
  \<^verbatim>\<open>rsinfo\<close>: the modes the caller allows (a bit mask) and the expected tuple
  descriptor, given by the type of each attribute.
\<close>

record ReturnSetInfo =
  allowedModes :: int
  expectedDesc :: "nat list"

text \<open>
  What a call gives: the rows of the tuple store or the error raised, and the
  connection events of the call.
\<close>

record call_outcome =
  returned :: "error + result_row list"
  connectionEvents :: "conn_event list"

definition master_run_on_worker ::
  "environment \<Rightarrow> nat \<Rightarrow> ReturnSetInfo option \<Rightarrow> string list \<Rightarrow> 32 word list
     \<Rightarrow> string list \<Rightarrow> bool \<Rightarrow> call_outcome option" where
  "master_run_on_worker env fuel rsinfo nodeNames nodePorts commands parallel =
     (if \<not> citusVersionOk env then
        Some \<lparr>returned = Inl CitusVersionMismatch, connectionEvents = []\<rparr>
      else
        (case rsinfo of
           None \<Rightarrow>
             Some \<lparr>returned = Inl (ErrorReport ERRCODE_SYNTAX_ERROR
                      ''materialize mode required, but it is not allowed in this context''),
                   connectionEvents = []\<rparr>
         | Some rs \<Rightarrow>
             if allowedModes rs AND SFRM_Materialize = 0 then
               Some \<lparr>returned = Inl (ErrorReport ERRCODE_SYNTAX_ERROR
                        ''materialize mode required, but it is not allowed in this context''),
                     connectionEvents = []\<rparr>
             else
               (case ParseCommandParameters nodeNames nodePorts commands parallel of
                  Inl e \<Rightarrow> Some \<lparr>returned = Inl e, connectionEvents = []\<rparr>
                | Inr (nodeNameArray, nodePortArray, commandStringArray, parallelExecution,
                       commandCount) \<Rightarrow>
                    (let tupleDescriptor = expectedDesc rs
                     in if length tupleDescriptor \<noteq> 4
                           \<or> tupleDescriptor ! 0 \<noteq> TEXTOID
                           \<or> tupleDescriptor ! 1 \<noteq> INT4OID
                           \<or> tupleDescriptor ! 2 \<noteq> BOOLOID
                           \<or> tupleDescriptor ! 3 \<noteq> TEXTOID then
                          Some \<lparr>returned = Inl (ErrorReport ERRCODE_INVALID_COLUMN_DEFINITION
                                   ''query-specified return tuple and function return type are not compatible''),
                                connectionEvents = []\<rparr>
                        else
                          (let statusArray0 = replicate commandCount False;
                               resultArray0 = replicate commandCount [];
                               executed =
                                 (if parallelExecution then
                                    map_option (\<lambda>(raised, st). (raised, executor_state.truncate st))
                                      (ExecuteCommandsInParallelAndStoreResults env fuel
                                         nodeNameArray nodePortArray commandStringArray
                                         statusArray0 resultArray0 commandCount)
                                  else
                                    Some (ExecuteCommandsAndStoreResults env nodeNameArray
                                            nodePortArray commandStringArray statusArray0
                                            resultArray0 commandCount))
                           in case executed of
                                None \<Rightarrow> None
                              | Some (Some e, st) \<Rightarrow>
                                  Some \<lparr>returned = Inl e,
                                        connectionEvents = connectionLog st\<rparr>
                              | Some (None, st) \<Rightarrow>
                                  Some \<lparr>returned = Inr (CreateTupleStore nodeNameArray
                                                         nodePortArray (statusArray st)
                                                         (resultStringArray st) commandCount),
                                        connectionEvents = connectionLog st\<rparr>)))))"

subsection \<open>Connectivity checks\<close>

definition CONNECTIVITY_CHECK_QUERY :: string where
  "CONNECTIVITY_CHECK_QUERY = ''SELECT 1''"

text \<open>
  \<^verbatim>\<open>CheckConnectionToNode\<close> opens the only connection of its call, connection 0 of the
  environment, with connection flags 0.
\<close>

definition CheckConnectionToNode :: "environment \<Rightarrow> string \<Rightarrow> 32 word \<Rightarrow> bool" where
  "CheckConnectionToNode env nodeName nodePort =
     (let connectionFlags = 0;
          connection = GetNodeConnection env 0 connectionFlags nodeName nodePort;
          responseStatus =
            fst (executeOptionalRemoteCommand env connection CONNECTIVITY_CHECK_QUERY)
      in responseStatus = RESPONSE_OKAY)"

definition GetConnectivityCheckCommand :: "string \<Rightarrow> 32 word \<Rightarrow> string" where
  "GetConnectivityCheckCommand nodeName nodePort =
     ''SELECT citus_check_connection_to_node('' @ [CHR 0x27] @ nodeName @ [CHR 0x27]
       @ '', '' @ format_d (sint nodePort) @ '')''"

text \<open>A row of the connectivity report; \<open>checkSuccess = None\<close> is \<^verbatim>\<open>isNulls[4]\<close>.\<close>

record connectivity_row =
  sourceNodeName :: string
  sourceNodePort :: "32 word"
  targetNodeName :: string
  targetNodePort :: "32 word"
  checkSuccess :: "bool option"

text \<open>The body of the inner loop: one probe on the connection to the source node.\<close>

definition check_target ::
  "environment \<Rightarrow> MultiConnection \<Rightarrow> WorkerNode \<Rightarrow> WorkerNode \<Rightarrow> connectivity_row" where
  "check_target env connectionToSourceNode sourceWorkerNode targetWorkerNode =
     (let sourceNodeName = workerName sourceWorkerNode;
          sourceNodePort = workerPort sourceWorkerNode;
          targetNodeName = workerName targetWorkerNode;
          targetNodePort = workerPort targetWorkerNode;
          connectivityCheckCommandToTargetNode =
            GetConnectivityCheckCommand targetNodeName targetNodePort;
          (executionResult, result) =
            executeOptionalRemoteCommand env connectionToSourceNode
              connectivityCheckCommandToTargetNode
      in \<lparr>sourceNodeName = sourceNodeName, sourceNodePort = sourceNodePort,
          targetNodeName = targetNodeName, targetNodePort = targetNodePort,
          checkSuccess =
            (if executionResult \<noteq> RESPONSE_OKAY then None
             else Some (parseBoolField env result 0 0))\<rparr>)"

text \<open>
  The outer loop from position \<open>sourceIndex\<close> of the sorted list on: the tuples put
  into the store and the connections opened.
\<close>

fun check_sources ::
  "environment \<Rightarrow> WorkerNode list \<Rightarrow> nat \<Rightarrow> WorkerNode list
     \<Rightarrow> connectivity_row list \<times> conn_event list" where
  "check_sources env workerNodeList sourceIndex [] = ([], [])"
| "check_sources env workerNodeList sourceIndex (sourceWorkerNode # rest) =
     (let sourceNodeName = workerName sourceWorkerNode;
          sourceNodePort = workerPort sourceWorkerNode;
          connectionFlags = 0;
          connectionToSourceNode =
            GetNodeConnection env sourceIndex connectionFlags sourceNodeName sourceNodePort;
          rows = map (check_target env connectionToSourceNode sourceWorkerNode) workerNodeList;
          (restRows, restEvents) = check_sources env workerNodeList (Suc sourceIndex) rest
      in (rows @ restRows,
          ConnectionOpened sourceIndex connectionFlags sourceNodeName sourceNodePort
            # restEvents))"

text \<open>
  Modelled from the spec: \<^verbatim>\<open>CompareWorkerNodes\<close> and \<^verbatim>\<open>SortList\<close> are defined outside
  this file. The spec has the node list sorted ``by the deterministic (name, port)
  order'', ``a total order over (name, port)'': names are compared first, ports
  decide between equal names; the result is negative, zero or positive as a C
  comparator's.
\<close>

definition CompareWorkerNodes :: "WorkerNode \<Rightarrow> WorkerNode \<Rightarrow> int" where
  "CompareWorkerNodes leftNode rightNode =
     (if workerName leftNode < workerName rightNode then - 1
      else if workerName rightNode < workerName leftNode then 1
      else if workerPort leftNode < workerPort rightNode then - 1
      else if workerPort rightNode < workerPort leftNode then 1
      else 0)"

fun sort_insert :: "('a \<Rightarrow> 'a \<Rightarrow> int) \<Rightarrow> 'a \<Rightarrow> 'a list \<Rightarrow> 'a list" where
  "sort_insert compare x [] = [x]"
| "sort_insert compare x (y # ys) =
     (if compare x y \<le> 0 then x # y # ys else y # sort_insert compare x ys)"

definition SortList :: "'a list \<Rightarrow> ('a \<Rightarrow> 'a \<Rightarrow> int) \<Rightarrow> 'a list" where
  "SortList pointerList compare = foldr (sort_insert compare) pointerList []"

definition StoreAllConnectivityChecks ::
  "environment \<Rightarrow> connectivity_row list \<times> conn_event list" where
  "StoreAllConnectivityChecks env =
     (let workerNodeList = activeReadableNodeList env;
          workerNodeList = SortList workerNodeList CompareWorkerNodes
      in check_sources env workerNodeList 0 workerNodeList)"

definition citus_check_cluster_node_health ::
  "environment \<Rightarrow> error + connectivity_row list" where
  "citus_check_cluster_node_health env =
     (if \<not> citusVersionOk env then Inl CitusVersionMismatch
      else Inr (fst (StoreAllConnectivityChecks env)))"

subsection \<open>Vocabulary of the properties\<close>

text \<open>
  The (name, port) pair of a node, the two pairs of a row of the connectivity report,
  and the reply to the probe about a target node sent on the connection opened for
  the source node at a position of the sorted list.
\<close>

definition node_key :: "WorkerNode \<Rightarrow> string \<times> 32 word" where
  "node_key node = (workerName node, workerPort node)"

definition row_endpoints :: "connectivity_row \<Rightarrow> (string \<times> 32 word) \<times> (string \<times> 32 word)" where
  "row_endpoints row = ((sourceNodeName row, sourceNodePort row), (targetNodeName row, targetNodePort row))"

definition probe_reply :: "environment \<Rightarrow> nat \<Rightarrow> WorkerNode \<Rightarrow> WorkerNode \<Rightarrow> int \<times> PGresult option" where
  "probe_reply env sourceIndex sourceWorkerNode targetWorkerNode =
     executeOptionalRemoteCommand env
       (GetNodeConnection env sourceIndex 0 (workerName sourceWorkerNode) (workerPort sourceWorkerNode))
       (GetConnectivityCheckCommand (workerName targetWorkerNode) (workerPort targetWorkerNode))"

text \<open>
  The connection an event belongs to, the events of one connection in a log, and the
  connection flags of the openings of a log, in order.
\<close>

fun event_connection :: "conn_event \<Rightarrow> nat" where
  "event_connection (ConnectionOpened i flags nodeName nodePort) = i"
| "event_connection (CommandSent i queryString) = i"
| "event_connection (ConnectionClosed i) = i"

definition events_of :: "nat \<Rightarrow> conn_event list \<Rightarrow> conn_event list" where
  "events_of i events = filter (\<lambda>e. event_connection e = i) events"

fun opening_flags :: "conn_event list \<Rightarrow> int list" where
  "opening_flags [] = []"
| "opening_flags (ConnectionOpened i flags nodeName nodePort # events) =
     flags # opening_flags events"
| "opening_flags (CommandSent i queryString # events) = opening_flags events"
| "opening_flags (ConnectionClosed i # events) = opening_flags events"

text \<open>
  \<^verbatim>\<open>GetConnectionStatusAndResult\<close> reports a query finished at a sweep when the
  connection is bad, no input can be consumed, or the connection is no longer busy.
  A wait is interrupted when the connection is established, the query is sent and
  \<^verbatim>\<open>GetRemoteCommandResult\<close> raises the cancellation. \<open>commands_complete\<close> says that
  nothing keeps a batch from running to its end: no cancellation is pending at any
  \<^verbatim>\<open>CHECK_FOR_INTERRUPTS()\<close> and, in the parallel executor, every polled connection
  finishes within \<open>fuel\<close> sweeps, in the sequential one, no wait for a result is
  interrupted.
\<close>

definition queryFinishedAt :: "PGconn \<Rightarrow> nat \<Rightarrow> bool" where
  "queryFinishedAt conn sweep \<longleftrightarrow>
     pollStatus conn sweep = CONNECTION_BAD \<or> consumeInput conn sweep = 0
     \<or> isBusy conn sweep = 0"

definition waitInterrupted :: "PGconn \<Rightarrow> bool" where
  "waitInterrupted conn \<longleftrightarrow>
     establishedStatus conn = CONNECTION_OK \<and> querySent conn \<noteq> 0
     \<and> remoteCommandResult conn = None"

definition commands_complete :: "environment \<Rightarrow> nat \<Rightarrow> nat \<Rightarrow> bool \<Rightarrow> bool" where
  "commands_complete env fuel commandCount parallel \<longleftrightarrow>
     (\<forall>k. \<not> interruptPending env k)
     \<and> (if parallel then
          (\<forall>i<commandCount.
              establishedStatus (network env i) = CONNECTION_OK \<and> querySent (network env i) \<noteq> 0
              \<longrightarrow> (\<exists>k<fuel. queryFinishedAt (network env i) k))
        else (\<forall>i<commandCount. \<not> waitInterrupted (network env i)))"

text \<open>
  The errors this file reports with \<^verbatim>\<open>ereport\<close> before any command runs are the
  input validation errors. The structural defects of a call are array arguments of
  different lengths, a caller that does not allow a materialized result, and an
  expected tuple descriptor other than (text, int4, bool, text).
\<close>

definition InputValidationError :: "error \<Rightarrow> bool" where
  "InputValidationError e = (case e of ErrorReport code message \<Rightarrow> True | _ \<Rightarrow> False)"

definition structural_input_error ::
  "ReturnSetInfo option \<Rightarrow> string list \<Rightarrow> 32 word list \<Rightarrow> string list \<Rightarrow> bool" where
  "structural_input_error rsinfo nodeNames nodePorts commands \<longleftrightarrow>
     length nodeNames \<noteq> length nodePorts \<or> length nodeNames \<noteq> length commands
     \<or> (case rsinfo of
           None \<Rightarrow> True
         | Some rs \<Rightarrow>
             allowedModes rs AND SFRM_Materialize = 0
             \<or> expectedDesc rs \<noteq> [TEXTOID, INT4OID, BOOLOID, TEXTOID])"

text \<open>
  The words with which both executors begin the message of a connection that could
  not be established.
\<close>

definition connection_failure_text :: "string \<Rightarrow> bool" where
  "connection_failure_text r \<longleftrightarrow>
     take (length ''failed to connect to '') r = ''failed to connect to ''"

subsection \<open>Slots of the executors\<close>

text \<open>
  The executors keep one slot per command in parallel arrays. The view of a state at
  an index gathers what belongs to that slot: the entries of the arrays and the events
  of its connection. \<open>arrays_sized\<close> says that the arrays have \<open>commandCount\<close>
  entries, \<open>finished_counted\<close> that \<open>finishedCount\<close> counts the \<^verbatim>\<open>NULL\<close> entries of
  \<open>connectionArray\<close>. The functions \<open>started_slot\<close>, \<open>established_slot\<close>,
  \<open>sent_slot\<close> and \<open>polled_slot\<close> are what one pass of each loop body of the parallel
  executor does to the slot it visits; \<open>connected_slot\<close> is a slot after the three
  loops that precede the poll loop and \<open>parallel_start_state\<close> the state that enters
  the poll loop.
\<close>

type_synonym slot = "MultiConnection option \<times> bool \<times> string \<times> conn_event list"

definition slot_of :: "parallel_state \<Rightarrow> nat \<Rightarrow> slot" where
  "slot_of st j =
     (connectionArray st ! j, statusArray st ! j, resultStringArray st ! j,
      events_of j (connectionLog st))"

definition arrays_sized :: "nat \<Rightarrow> parallel_state \<Rightarrow> bool" where
  "arrays_sized n st \<longleftrightarrow>
     length (connectionArray st) = n \<and> length (statusArray st) = n
     \<and> length (resultStringArray st) = n"

definition finished_counted :: "parallel_state \<Rightarrow> bool" where
  "finished_counted st \<longleftrightarrow>
     finishedCount st = length (filter (\<lambda>c. c = None) (connectionArray st))"

definition started_slot ::
  "environment \<Rightarrow> string list \<Rightarrow> 32 word list \<Rightarrow> nat \<Rightarrow> slot \<Rightarrow> slot" where
  "started_slot env nodeNameArray nodePortArray j sl =
     (case sl of (c, s, r, ev) \<Rightarrow>
        (Some (StartNodeConnection env j FORCE_NEW_CONNECTION (nodeNameArray ! j) (nodePortArray ! j)),
         s, r,
         ev @ [ConnectionOpened j FORCE_NEW_CONNECTION (nodeNameArray ! j) (nodePortArray ! j)]))"

definition established_slot :: "string list \<Rightarrow> 32 word list \<Rightarrow> nat \<Rightarrow> slot \<Rightarrow> slot" where
  "established_slot nodeNameArray nodePortArray j sl =
     (case sl of
        (None, s, r, ev) \<Rightarrow> sl
      | (Some c, s, r, ev) \<Rightarrow>
          if establishedStatus (pgConn c) \<noteq> CONNECTION_OK then
            (None, False,
             r @ ''failed to connect to '' @ nodeNameArray ! j @ '':''
               @ format_d (sint (nodePortArray ! j)), ev)
          else (Some c, True, r, ev))"

definition sent_slot :: "string list \<Rightarrow> nat \<Rightarrow> slot \<Rightarrow> slot" where
  "sent_slot commandStringArray j sl =
     (case sl of
        (None, s, r, ev) \<Rightarrow> sl
      | (Some c, s, r, ev) \<Rightarrow>
          if querySent (pgConn c) = 0 then
            (None, False, StoreErrorMessage c r,
             ev @ [CommandSent j (commandStringArray ! j), ConnectionClosed j])
          else (Some c, s, r, ev @ [CommandSent j (commandStringArray ! j)]))"

definition polled_slot :: "nat \<Rightarrow> nat \<Rightarrow> slot \<Rightarrow> slot" where
  "polled_slot j sweep sl =
     (case sl of
        (None, s, r, ev) \<Rightarrow> sl
      | (Some c, s, r, ev) \<Rightarrow>
          (case GetConnectionStatusAndResult c sweep r of
             (queryFinished, success, r') \<Rightarrow>
               if queryFinished then (None, success, r', ev @ [ConnectionClosed j])
               else (Some c, s, r', ev)))"

definition connected_slot ::
  "environment \<Rightarrow> string list \<Rightarrow> 32 word list \<Rightarrow> string list \<Rightarrow> nat \<Rightarrow> slot \<Rightarrow> slot" where
  "connected_slot env nodeNameArray nodePortArray commandStringArray j sl =
     sent_slot commandStringArray j
       (established_slot nodeNameArray nodePortArray j
          (started_slot env nodeNameArray nodePortArray j sl))"

definition parallel_start_state ::
  "environment \<Rightarrow> string list \<Rightarrow> 32 word list \<Rightarrow> string list \<Rightarrow> bool list \<Rightarrow> string list
     \<Rightarrow> nat \<Rightarrow> parallel_state" where
  "parallel_start_state env nodeNameArray nodePortArray commandStringArray statusArray0
       resultStringArray0 commandCount =
     fold (send_query commandStringArray) [0..<commandCount]
       (fold (establish_connection nodeNameArray nodePortArray) [0..<commandCount]
          (fold (start_connection env nodeNameArray nodePortArray) [0..<commandCount]
             \<lparr>statusArray = statusArray0, resultStringArray = resultStringArray0,
              connectionLog = [], connectionArray = replicate commandCount None,
              finishedCount = 0\<rparr>))"

text \<open>
  The recorded outcome at an index (status, result string, events of its connection),
  what one pass of the sequential loop does to it, and the answer (status and result
  string) alone; the answer of a slot of the parallel executor comes with the libpq
  connection the slot still holds. \<open>run_executor\<close> is the executor call of
  \<^verbatim>\<open>master_run_on_worker\<close> on parsed arrays and fresh status and result arrays.
\<close>

type_synonym outcome_slot = "bool \<times> string \<times> conn_event list"

definition outcome_of :: "'a executor_state_scheme \<Rightarrow> nat \<Rightarrow> outcome_slot" where
  "outcome_of st j =
     (statusArray st ! j, resultStringArray st ! j, events_of j (connectionLog st))"

definition sequential_slot ::
  "environment \<Rightarrow> string list \<Rightarrow> 32 word list \<Rightarrow> string list \<Rightarrow> nat \<Rightarrow> outcome_slot
     \<Rightarrow> outcome_slot" where
  "sequential_slot env nodeNameArray nodePortArray commandStringArray j sl =
     (case sl of (s, r, ev) \<Rightarrow>
        (case ExecuteRemoteQueryOrCommand env j (nodeNameArray ! j) (nodePortArray ! j)
                (commandStringArray ! j) r of
           (Inr ok, r', events) \<Rightarrow> (ok, r', ev @ events)
         | (Inl e, r', events) \<Rightarrow> (s, r', ev @ events)))"



definition run_executor ::
  "environment \<Rightarrow> nat \<Rightarrow> string list \<Rightarrow> 32 word list \<Rightarrow> string list \<Rightarrow> bool
     \<Rightarrow> (error option \<times> executor_state) option" where
  "run_executor env fuel names ports commands parallel =
     (if parallel then
        map_option (\<lambda>(raised, st). (raised, executor_state.truncate st))
          (ExecuteCommandsInParallelAndStoreResults env fuel names ports commands
             (replicate (length names) False) (replicate (length names) []) (length names))
      else
        Some (ExecuteCommandsAndStoreResults env names ports commands
                (replicate (length names) False) (replicate (length names) []) (length names)))"

subsection \<open>Example inputs\<close>

text \<open>
  A connection that is established, takes the query and answers one row with one
  column at the third sweep; a caller that allows a materialized result of the right
  shape; a two-node cluster in which the controller cannot reach \<open>worker-b\<close> and
  \<open>worker-a\<close> reports that it cannot reach \<open>worker-b\<close> either; the same cluster with
  every probe answered positively, with the connection of the second command refused,
  and with a cancellation pending at every check; a result of one column and no row,
  and the cluster with every command answered by it.
\<close>

definition example_result :: "string \<Rightarrow> PGresult" where
  "example_result v =
     \<lparr>resultStatus = PGRES_TUPLES_OK, cmdStatus = ''SELECT 1'', numAttributes = 1,
      tuples = [[Some v]]\<rparr>"

definition example_pgconn :: PGconn where
  "example_pgconn =
     \<lparr>establishedStatus = CONNECTION_OK, querySent = 1, errorMessage = Some [],
      remoteCommandResult = Some (Some (example_result ''1'')),
      pollStatus = (\<lambda>sweep. CONNECTION_OK), consumeInput = (\<lambda>sweep. 1),
      isBusy = (\<lambda>sweep. if sweep < 2 then 1 else 0),
      getResult = (\<lambda>sweep. Some (example_result ''1''))\<rparr>"

definition example_connection :: MultiConnection where
  "example_connection =
     \<lparr>pgConn = example_pgconn, hostname = ''worker-a'', port = 5432,
      connectionFlags = FORCE_NEW_CONNECTION, connectionId = 0\<rparr>"

definition example_rsinfo :: ReturnSetInfo where
  "example_rsinfo = \<lparr>allowedModes = 3, expectedDesc = [TEXTOID, INT4OID, BOOLOID, TEXTOID]\<rparr>"

definition example_cluster :: environment where
  "example_cluster =
     \<lparr>citusVersionOk = True,
      network = (\<lambda>i. example_pgconn),
      interruptPending = (\<lambda>k. False),
      activeReadableNodeList =
        [\<lparr>workerName = ''worker-b'', workerPort = 5432\<rparr>,
         \<lparr>workerName = ''worker-a'', workerPort = 5432\<rparr>],
      executeOptionalRemoteCommand =
        (\<lambda>connection command.
           if hostname connection = ''worker-b'' then (QUERY_SEND_FAILED, None)
           else if command = GetConnectivityCheckCommand ''worker-b'' 5432
             then (RESPONSE_OKAY, Some (example_result ''f''))
           else (RESPONSE_OKAY, Some (example_result ''t''))),
      parseBoolField = (\<lambda>result rowIndex columnIndex.
           pgresult_cell result rowIndex columnIndex = Some ''t'')\<rparr>"

definition reachable_cluster :: environment where
  "reachable_cluster =
     example_cluster\<lparr>executeOptionalRemoteCommand :=
       (\<lambda>connection command. (RESPONSE_OKAY, Some (example_result ''t'')))\<rparr>"

definition one_down_cluster :: environment where
  "one_down_cluster =
     example_cluster\<lparr>network :=
       (\<lambda>i. if i = 1 then example_pgconn\<lparr>establishedStatus := CONNECTION_BAD\<rparr>
            else example_pgconn)\<rparr>"

definition cancelling_cluster :: environment where
  "cancelling_cluster = example_cluster\<lparr>interruptPending := (\<lambda>k. True)\<rparr>"





section \<open>Properties\<close>

subsection \<open>Helper facts\<close>

lemma strchr_None_iff: "strchr s c = None \<longleftrightarrow> c \<notin> set s"
  by (induction s) auto

lemma strchr_Some_split:
  "strchr s c = Some k \<Longrightarrow> k < length s \<and> s ! k = c \<and> c \<notin> set (take k s)"
proof (induction s arbitrary: k)
  case Nil
  then show ?case by simp
next
  case (Cons x xs)
  show ?case
  proof (cases "x = c")
    case True
    with Cons.prems show ?thesis by simp
  next
    case False
    with Cons.prems obtain j where j: "strchr xs c = Some j" "k = Suc j"
      by auto
    from Cons.IH [OF j(1)] False j(2) show ?thesis by auto
  qed
qed

subsection \<open>The result evaluator\<close>

text \<open>
  C4. For a response with rows (\<^verbatim>\<open>PGRES_TUPLES_OK\<close>) the evaluator checks the
  column count first: a count other than 1 gives failure with the text
  ``expected a single column in query target'', whatever the row count is. With one
  column, more than one row gives failure with ``expected a single row in query
  result''. Otherwise it succeeds, and the text appended to the result string is the
  value of the cell at row 0, column 0, or nothing when that cell is null.
\<close>

theorem EvaluateQueryResult_tuples_contract:
  assumes "PQresultStatus queryResult = PGRES_TUPLES_OK"
  shows "(PQnfields queryResult \<noteq> 1 \<longrightarrow>
            EvaluateQueryResult connection queryResult queryResultString =
              (False, queryResultString @ ''expected a single column in query target''))
       \<and> (PQnfields queryResult = 1 \<and> 1 < PQntuples queryResult \<longrightarrow>
            EvaluateQueryResult connection queryResult queryResultString =
              (False, queryResultString @ ''expected a single row in query result''))
       \<and> (PQnfields queryResult = 1 \<and> PQntuples queryResult \<le> 1 \<longrightarrow>
            EvaluateQueryResult connection queryResult queryResultString =
              (True, queryResultString @
                 (case pgresult_cell queryResult 0 0 of None \<Rightarrow> [] | Some v \<Rightarrow> v)))"
proof -
  have status: "PQresultStatus queryResult \<noteq> PGRES_COMMAND_OK"
    using assms by simp
  have columns: "PQnfields queryResult \<noteq> 1 \<Longrightarrow>
      EvaluateQueryResult connection queryResult queryResultString =
        (False, queryResultString @ ''expected a single column in query target'')"
    using assms by (simp add: EvaluateQueryResult_def Let_def)
  have rows: "PQnfields queryResult = 1 \<Longrightarrow> 1 < PQntuples queryResult \<Longrightarrow>
      EvaluateQueryResult connection queryResult queryResultString =
        (False, queryResultString @ ''expected a single row in query result'')"
    using assms by (simp add: EvaluateQueryResult_def Let_def)
  have cell: "PQnfields queryResult = 1 \<Longrightarrow> PQntuples queryResult \<le> 1 \<Longrightarrow>
      EvaluateQueryResult connection queryResult queryResultString =
        (True, queryResultString @
           (case pgresult_cell queryResult 0 0 of None \<Rightarrow> [] | Some v \<Rightarrow> v))"
    using assms
    by (cases "pgresult_cell queryResult 0 0")
       (simp_all add: EvaluateQueryResult_def Let_def PQgetisnull_def PQgetvalue_def)
  from columns rows cell show ?thesis by blast
qed

text \<open>
  A response of two columns and three rows gets the column message; one of one column
  and two rows the row message; one of one column and the single row \<open>42\<close> succeeds
  with \<open>42\<close>.
\<close>

theorem EvaluateQueryResult_tuples_contract_witness:
  "EvaluateQueryResult example_connection
      (Some \<lparr>resultStatus = PGRES_TUPLES_OK, cmdStatus = ''SELECT 3'', numAttributes = 2,
             tuples = [[Some ''1'', Some ''a''], [Some ''2'', None], [Some ''3'', Some ''c'']]\<rparr>) []
     = (False, ''expected a single column in query target'')
   \<and> EvaluateQueryResult example_connection
      (Some \<lparr>resultStatus = PGRES_TUPLES_OK, cmdStatus = ''SELECT 2'', numAttributes = 1,
             tuples = [[Some ''1''], [Some ''2'']]\<rparr>) []
     = (False, ''expected a single row in query result'')
   \<and> EvaluateQueryResult example_connection (Some (example_result ''42'')) []
     = (True, ''42'')"
  using
    EvaluateQueryResult_tuples_contract [of
      "Some \<lparr>resultStatus = PGRES_TUPLES_OK, cmdStatus = ''SELECT 3'', numAttributes = 2,
             tuples = [[Some ''1'', Some ''a''], [Some ''2'', None], [Some ''3'', Some ''c'']]\<rparr>"
      example_connection "[]"]
    EvaluateQueryResult_tuples_contract [of
      "Some \<lparr>resultStatus = PGRES_TUPLES_OK, cmdStatus = ''SELECT 2'', numAttributes = 1,
             tuples = [[Some ''1''], [Some ''2'']]\<rparr>"
      example_connection "[]"]
    EvaluateQueryResult_tuples_contract [of "Some (example_result ''42'')" example_connection "[]"]
  by (simp add: PQresultStatus_def PQnfields_def PQntuples_def pgresult_cell_def
        example_result_def)

text \<open>
  C9. When the response is neither \<^verbatim>\<open>PGRES_COMMAND_OK\<close> nor \<^verbatim>\<open>PGRES_TUPLES_OK\<close>
  (a remote-side error), the outcome is a failure. With no error message on the
  connection the text appended is ``An error occurred while running the query''.
  With a message, the text is the message cut at its first line break: it holds no
  line break, and it is either the whole message or the part of the message right
  before a line break.
\<close>

theorem EvaluateQueryResult_remote_error:
  assumes "PQresultStatus queryResult \<noteq> PGRES_COMMAND_OK"
    and "PQresultStatus queryResult \<noteq> PGRES_TUPLES_OK"
  shows "\<exists>text. EvaluateQueryResult connection queryResult queryResultString =
            (False, queryResultString @ text)
         \<and> (case PQerrorMessage (pgConn connection) of
              None \<Rightarrow> text = ''An error occurred while running the query''
            | Some msg \<Rightarrow>
                newline \<notin> set text
                \<and> (if newline \<in> set msg then \<exists>rest. msg = text @ newline # rest
                   else msg = text))"
proof (cases "PQerrorMessage (pgConn connection)")
  case None
  with assms show ?thesis
    by (simp add: EvaluateQueryResult_def StoreErrorMessage_def)
next
  case (Some msg)
  show ?thesis
  proof (cases "strchr msg newline")
    case None
    then have "newline \<notin> set msg"
      by (simp add: strchr_None_iff)
    with assms Some None show ?thesis
      by (simp add: EvaluateQueryResult_def StoreErrorMessage_def)
  next
    case (Some k)
    from strchr_Some_split [OF Some]
    have k: "k < length msg" "msg ! k = newline" "newline \<notin> set (take k msg)"
      by simp_all
    have "msg = take k msg @ msg ! k # drop (Suc k) msg"
      using k(1) by (simp add: id_take_nth_drop)
    then have split: "msg = take k msg @ newline # drop (Suc k) msg"
      using k(2) by simp
    have present: "newline \<in> set msg"
      using k(1) k(2) nth_mem by fastforce
    have eval: "EvaluateQueryResult connection queryResult queryResultString =
        (False, queryResultString @ take k msg)"
      using assms \<open>PQerrorMessage (pgConn connection) = Some msg\<close> Some
      by (simp add: EvaluateQueryResult_def StoreErrorMessage_def)
    show ?thesis
      using eval k(3) split present \<open>PQerrorMessage (pgConn connection) = Some msg\<close>
      by auto
  qed
qed

text \<open>
  A missing result on a connection whose error message has two lines is reported by the
  first line; with a \<^verbatim>\<open>NULL\<close> message the fallback text is reported.
\<close>

theorem EvaluateQueryResult_remote_error_witness:
  "PQresultStatus None \<noteq> PGRES_COMMAND_OK \<and> PQresultStatus None \<noteq> PGRES_TUPLES_OK
   \<and> (\<exists>line rest.
         EvaluateQueryResult
           (example_connection\<lparr>pgConn := example_pgconn\<lparr>errorMessage :=
              Some (''ERROR:  division by zero'' @ [newline] @ ''CONTEXT:  remote'')\<rparr>\<rparr>)
           None [] = (False, line)
         \<and> newline \<notin> set line
         \<and> ''ERROR:  division by zero'' @ [newline] @ ''CONTEXT:  remote'' = line @ newline # rest)
   \<and> EvaluateQueryResult
         (example_connection\<lparr>pgConn := example_pgconn\<lparr>errorMessage := None\<rparr>\<rparr>)
         None [] = (False, ''An error occurred while running the query'')"
proof -
  have status: "PQresultStatus None \<noteq> PGRES_COMMAND_OK" "PQresultStatus None \<noteq> PGRES_TUPLES_OK"
    by (simp_all add: PQresultStatus_def)
  have first: "\<exists>line rest.
         EvaluateQueryResult
           (example_connection\<lparr>pgConn := example_pgconn\<lparr>errorMessage :=
              Some (''ERROR:  division by zero'' @ [newline] @ ''CONTEXT:  remote'')\<rparr>\<rparr>)
           None [] = (False, line)
         \<and> newline \<notin> set line
         \<and> ''ERROR:  division by zero'' @ [newline] @ ''CONTEXT:  remote'' = line @ newline # rest"
    using EvaluateQueryResult_remote_error [OF status, of
        "example_connection\<lparr>pgConn := example_pgconn\<lparr>errorMessage :=
              Some (''ERROR:  division by zero'' @ [newline] @ ''CONTEXT:  remote'')\<rparr>\<rparr>" "[]"]
    by (simp add: PQerrorMessage_def)
  have second: "EvaluateQueryResult
         (example_connection\<lparr>pgConn := example_pgconn\<lparr>errorMessage := None\<rparr>\<rparr>)
         None [] = (False, ''An error occurred while running the query'')"
    using EvaluateQueryResult_remote_error [OF status, of
        "example_connection\<lparr>pgConn := example_pgconn\<lparr>errorMessage := None\<rparr>\<rparr>" "[]"]
    by (simp add: PQerrorMessage_def)
  from status first second show ?thesis by (intro conjI)
qed

subsection \<open>The connectivity report\<close>

lemma check_target_endpoints:
  "row_endpoints (check_target env c s t) = (node_key s, node_key t)"
  by (simp add: check_target_def row_endpoints_def node_key_def Let_def split: prod.split)

lemma check_target_success:
  "checkSuccess (check_target env (GetNodeConnection env i 0 (workerName s) (workerPort s)) s t) =
     (if fst (probe_reply env i s t) \<noteq> RESPONSE_OKAY then None
      else Some (parseBoolField env (snd (probe_reply env i s t)) 0 0))"
  by (simp add: check_target_def probe_reply_def Let_def split: prod.split)

lemma check_sources_Cons_fst:
  "fst (check_sources env L k (s # srcs)) =
     map (check_target env (GetNodeConnection env k 0 (workerName s) (workerPort s)) s) L
       @ fst (check_sources env L (Suc k) srcs)"
  by (simp add: Let_def case_prod_unfold)

lemma check_sources_Cons_snd:
  "snd (check_sources env L k (s # srcs)) =
     ConnectionOpened k 0 (workerName s) (workerPort s) # snd (check_sources env L (Suc k) srcs)"
  by (simp add: Let_def case_prod_unfold)

lemma check_sources_length:
  "length (fst (check_sources env L k srcs)) = length srcs * length L"
  by (induction srcs arbitrary: k) (simp_all add: check_sources_Cons_fst del: check_sources.simps(2))

lemma check_sources_nth:
  "i < length srcs \<Longrightarrow> j < length L \<Longrightarrow>
   fst (check_sources env L k srcs) ! (i * length L + j) =
     check_target env
       (GetNodeConnection env (k + i) 0 (workerName (srcs ! i)) (workerPort (srcs ! i)))
       (srcs ! i) (L ! j)"
proof (induction srcs arbitrary: k i)
  case Nil
  then show ?case by simp
next
  case (Cons s srcs)
  show ?case
  proof (cases i)
    case 0
    with Cons.prems show ?thesis
      by (simp add: check_sources_Cons_fst nth_append del: check_sources.simps(2))
  next
    case (Suc i')
    with Cons.prems have i': "i' < length srcs" by simp
    have "fst (check_sources env L k (s # srcs)) ! (i * length L + j) =
          fst (check_sources env L (Suc k) srcs) ! (i' * length L + j)"
      using Suc by (simp add: check_sources_Cons_fst nth_append del: check_sources.simps(2))
    also have "\<dots> = check_target env
       (GetNodeConnection env (Suc k + i') 0 (workerName (srcs ! i')) (workerPort (srcs ! i')))
       (srcs ! i') (L ! j)"
      by (rule Cons.IH [OF i' Cons.prems(2)])
    finally show ?thesis using Suc by simp
  qed
qed

lemma check_sources_endpoints:
  "map row_endpoints (fst (check_sources env L k srcs)) =
     List.product (map node_key srcs) (map node_key L)"
  by (induction srcs arbitrary: k)
     (simp_all add: check_sources_Cons_fst check_target_endpoints comp_def
        del: check_sources.simps(2))

lemma check_sources_events:
  "snd (check_sources env L k srcs) =
     map (\<lambda>(i, s). ConnectionOpened i 0 (workerName s) (workerPort s)) (zip [k..<k + length srcs] srcs)"
proof (induction srcs arbitrary: k)
  case Nil
  then show ?case by simp
next
  case (Cons s srcs)
  have "[k..<k + length (s # srcs)] = k # [Suc k..<Suc k + length srcs]"
    by (simp add: upt_conv_Cons del: upt_Suc)
  then show ?case
    by (simp add: check_sources_Cons_snd Cons.IH [of "Suc k"] del: check_sources.simps(2) upt_Suc)
qed

lemma mset_sort_insert: "mset (sort_insert cmp x xs) = add_mset x (mset xs)"
  by (induction xs) simp_all

lemma mset_SortList: "mset (SortList xs cmp) = mset xs"
  by (induction xs) (simp_all add: SortList_def mset_sort_insert)

lemma CompareWorkerNodes_le_iff:
  "CompareWorkerNodes a b \<le> 0 \<longleftrightarrow>
     workerName a < workerName b \<or> (workerName a = workerName b \<and> workerPort a \<le> workerPort b)"
  by (auto simp: CompareWorkerNodes_def)

lemma CompareWorkerNodes_total: "CompareWorkerNodes a b \<le> 0 \<or> CompareWorkerNodes b a \<le> 0"
  by (auto simp: CompareWorkerNodes_le_iff)

lemma CompareWorkerNodes_trans:
  "CompareWorkerNodes a b \<le> 0 \<Longrightarrow> CompareWorkerNodes b c \<le> 0 \<Longrightarrow> CompareWorkerNodes a c \<le> 0"
  by (auto simp: CompareWorkerNodes_le_iff)

lemma set_sort_insert: "set (sort_insert cmp x xs) = insert x (set xs)"
  by (induction xs) auto

lemma sorted_sort_insert:
  "sorted_wrt (\<lambda>a b. CompareWorkerNodes a b \<le> 0) xs \<Longrightarrow>
   sorted_wrt (\<lambda>a b. CompareWorkerNodes a b \<le> 0) (sort_insert CompareWorkerNodes x xs)"
proof (induction xs)
  case Nil
  then show ?case by simp
next
  case (Cons y ys)
  show ?case
  proof (cases "CompareWorkerNodes x y \<le> 0")
    case True
    with Cons.prems show ?thesis
      by (auto intro: CompareWorkerNodes_trans)
  next
    case False
    then have "CompareWorkerNodes y x \<le> 0"
      using CompareWorkerNodes_total by blast
    with False Cons show ?thesis
      by (auto simp: set_sort_insert)
  qed
qed

lemma sorted_SortList:
  "sorted_wrt (\<lambda>a b. CompareWorkerNodes a b \<le> 0) (SortList xs CompareWorkerNodes)"
  by (induction xs) (simp_all add: SortList_def sorted_sort_insert)

lemma length_SortList: "length (SortList xs cmp) = length xs"
  using mset_SortList [of xs cmp] by (metis size_mset)

lemma set_SortList: "set (SortList xs cmp) = set xs"
  using mset_SortList [of xs cmp] by (metis set_mset_mset)

lemma StoreAllConnectivityChecks_unfold:
  "StoreAllConnectivityChecks env =
     check_sources env (SortList (activeReadableNodeList env) CompareWorkerNodes) 0
       (SortList (activeReadableNodeList env) CompareWorkerNodes)"
  by (simp add: StoreAllConnectivityChecks_def Let_def)

lemma StoreAllConnectivityChecks_nth:
  assumes "i < length (activeReadableNodeList env)" and "j < length (activeReadableNodeList env)"
  shows "fst (StoreAllConnectivityChecks env) ! (i * length (activeReadableNodeList env) + j) =
     check_target env
       (GetNodeConnection env i 0
          (workerName (SortList (activeReadableNodeList env) CompareWorkerNodes ! i))
          (workerPort (SortList (activeReadableNodeList env) CompareWorkerNodes ! i)))
       (SortList (activeReadableNodeList env) CompareWorkerNodes ! i)
       (SortList (activeReadableNodeList env) CompareWorkerNodes ! j)"
  using assms
    check_sources_nth [of i "SortList (activeReadableNodeList env) CompareWorkerNodes" j
      "SortList (activeReadableNodeList env) CompareWorkerNodes" env 0]
  by (simp add: StoreAllConnectivityChecks_unfold length_SortList)

lemma StoreAllConnectivityChecks_length:
  "length (fst (StoreAllConnectivityChecks env)) =
     length (activeReadableNodeList env) * length (activeReadableNodeList env)"
  by (simp add: StoreAllConnectivityChecks_unfold check_sources_length length_SortList)

lemma StoreAllConnectivityChecks_row:
  assumes "row \<in> set (fst (StoreAllConnectivityChecks env))"
  shows "\<exists>i j. i < length (activeReadableNodeList env) \<and> j < length (activeReadableNodeList env)
           \<and> row = fst (StoreAllConnectivityChecks env) ! (i * length (activeReadableNodeList env) + j)"
proof -
  let ?N = "length (activeReadableNodeList env)"
  from assms obtain n where n: "n < ?N * ?N" "row = fst (StoreAllConnectivityChecks env) ! n"
    by (auto simp: in_set_conv_nth StoreAllConnectivityChecks_length)
  then have pos: "0 < ?N" by (cases "?N") auto
  have "n div ?N < ?N"
    using n(1) pos by (simp add: less_mult_imp_div_less)
  moreover have "n mod ?N < ?N"
    using pos by simp
  moreover have "n = (n div ?N) * ?N + n mod ?N"
    by simp
  ultimately show ?thesis using n(2) by metis
qed

text \<open>
  C2. The row for the source at position \<open>i\<close> and the target at position \<open>j\<close> of
  the sorted node list names these two nodes, and its success field is null exactly
  when the probe sent on the connection to the source did not return
  \<^verbatim>\<open>RESPONSE_OKAY\<close>; otherwise it is the boolean parsed from the reply of the source.
  So when no probe on the connection to a source returns \<^verbatim>\<open>RESPONSE_OKAY\<close> (the
  controller cannot reach it), every row of that source is null, while a row with that
  node as target only is null or not according to the probe of its own source.
\<close>

theorem connectivity_cell_unknown_iff_probe_failed:
  assumes "i < length (activeReadableNodeList env)"
    and "j < length (activeReadableNodeList env)"
    and "sortedList = SortList (activeReadableNodeList env) CompareWorkerNodes"
    and "row = fst (StoreAllConnectivityChecks env) ! (i * length (activeReadableNodeList env) + j)"
    and "reply = probe_reply env i (sortedList ! i) (sortedList ! j)"
  shows "row_endpoints row = (node_key (sortedList ! i), node_key (sortedList ! j))
       \<and> (checkSuccess row = None \<longleftrightarrow> fst reply \<noteq> RESPONSE_OKAY)
       \<and> (fst reply = RESPONSE_OKAY \<longrightarrow>
            checkSuccess row = Some (parseBoolField env (snd reply) 0 0))
       \<and> ((\<forall>t < length (activeReadableNodeList env).
              fst (probe_reply env i (sortedList ! i) (sortedList ! t)) \<noteq> RESPONSE_OKAY) \<longrightarrow>
            (\<forall>t < length (activeReadableNodeList env).
              checkSuccess (fst (StoreAllConnectivityChecks env)
                 ! (i * length (activeReadableNodeList env) + t)) = None))"
proof -
  have cell: "\<And>t. t < length (activeReadableNodeList env) \<Longrightarrow>
      fst (StoreAllConnectivityChecks env) ! (i * length (activeReadableNodeList env) + t) =
        check_target env
          (GetNodeConnection env i 0 (workerName (sortedList ! i)) (workerPort (sortedList ! i)))
          (sortedList ! i) (sortedList ! t)"
    using assms(1,3) by (simp add: StoreAllConnectivityChecks_nth)
  have row: "row = check_target env
      (GetNodeConnection env i 0 (workerName (sortedList ! i)) (workerPort (sortedList ! i)))
      (sortedList ! i) (sortedList ! j)"
    using cell [OF assms(2)] assms(4) by simp
  have ends: "row_endpoints row = (node_key (sortedList ! i), node_key (sortedList ! j))"
    by (simp add: row check_target_endpoints)
  have success: "checkSuccess row =
      (if fst reply \<noteq> RESPONSE_OKAY then None else Some (parseBoolField env (snd reply) 0 0))"
    by (simp add: row assms(5) check_target_success)
  have source_down: "\<forall>t < length (activeReadableNodeList env).
        fst (probe_reply env i (sortedList ! i) (sortedList ! t)) \<noteq> RESPONSE_OKAY \<Longrightarrow>
      \<forall>t < length (activeReadableNodeList env).
        checkSuccess (fst (StoreAllConnectivityChecks env)
           ! (i * length (activeReadableNodeList env) + t)) = None"
    by (simp add: cell check_target_success)
  from ends success source_down show ?thesis by auto
qed

text \<open>
  In the example cluster \<open>worker-a\<close> reaches itself and reports \<open>worker-b\<close> down
  (\<open>Some False\<close>, not null), and both rows of the unreachable source \<open>worker-b\<close> are
  null.
\<close>

theorem connectivity_cell_unknown_iff_probe_failed_witness:
  "checkSuccess (fst (StoreAllConnectivityChecks example_cluster) ! 0) = Some True
   \<and> checkSuccess (fst (StoreAllConnectivityChecks example_cluster) ! 1) = Some False
   \<and> checkSuccess (fst (StoreAllConnectivityChecks example_cluster) ! 2) = None
   \<and> checkSuccess (fst (StoreAllConnectivityChecks example_cluster) ! 3) = None"
proof -
  have nodes: "activeReadableNodeList example_cluster =
      [\<lparr>workerName = ''worker-b'', workerPort = 5432\<rparr>,
       \<lparr>workerName = ''worker-a'', workerPort = 5432\<rparr>]"
    by (simp add: example_cluster_def)
  have sorted: "SortList [\<lparr>workerName = ''worker-b'', workerPort = 5432\<rparr>,
       \<lparr>workerName = ''worker-a'', workerPort = 5432\<rparr>] CompareWorkerNodes =
      [\<lparr>workerName = ''worker-a'', workerPort = 5432\<rparr>,
       \<lparr>workerName = ''worker-b'', workerPort = 5432\<rparr>]"
    by code_simp
  have replies:
    "probe_reply example_cluster 0 \<lparr>workerName = ''worker-a'', workerPort = 5432\<rparr>
       \<lparr>workerName = ''worker-a'', workerPort = 5432\<rparr> = (RESPONSE_OKAY, Some (example_result ''t''))"
    "probe_reply example_cluster 0 \<lparr>workerName = ''worker-a'', workerPort = 5432\<rparr>
       \<lparr>workerName = ''worker-b'', workerPort = 5432\<rparr> = (RESPONSE_OKAY, Some (example_result ''f''))"
    "fst (probe_reply example_cluster (Suc 0) \<lparr>workerName = ''worker-b'', workerPort = 5432\<rparr>
       \<lparr>workerName = ''worker-a'', workerPort = 5432\<rparr>) = QUERY_SEND_FAILED"
    "fst (probe_reply example_cluster (Suc 0) \<lparr>workerName = ''worker-b'', workerPort = 5432\<rparr>
       \<lparr>workerName = ''worker-b'', workerPort = 5432\<rparr>) = QUERY_SEND_FAILED"
    by (simp_all add: probe_reply_def example_cluster_def GetNodeConnection_def
          StartNodeConnection_def GetConnectivityCheckCommand_def)
  have parse: "parseBoolField example_cluster (Some (example_result ''t'')) 0 0"
    "\<not> parseBoolField example_cluster (Some (example_result ''f'')) 0 0"
    by (simp_all add: example_cluster_def example_result_def pgresult_cell_def)
  have codes: "QUERY_SEND_FAILED \<noteq> RESPONSE_OKAY"
    by (simp add: QUERY_SEND_FAILED_def RESPONSE_OKAY_def)
  show ?thesis
    using
      connectivity_cell_unknown_iff_probe_failed [of 0 example_cluster 0, OF _ _ refl refl refl]
      connectivity_cell_unknown_iff_probe_failed [of 0 example_cluster 1, OF _ _ refl refl refl]
      connectivity_cell_unknown_iff_probe_failed [of 1 example_cluster 0, OF _ _ refl refl refl]
      connectivity_cell_unknown_iff_probe_failed [of 1 example_cluster 1, OF _ _ refl refl refl]
    by (simp add: sorted nodes replies parse codes eval_nat_numeral)
qed

lemma StoreAllConnectivityChecks_endpoints:
  "map row_endpoints (fst (StoreAllConnectivityChecks env)) =
     List.product (map node_key (SortList (activeReadableNodeList env) CompareWorkerNodes))
       (map node_key (SortList (activeReadableNodeList env) CompareWorkerNodes))"
  by (simp add: StoreAllConnectivityChecks_unfold check_sources_endpoints)

lemma distinct_keys_SortList:
  "distinct (map node_key xs) \<Longrightarrow> distinct (map node_key (SortList xs cmp))"
  by (metis distinct_map mset_SortList mset_eq_imp_distinct_iff set_SortList)

text \<open>
  C6. For a node list of \<open>N\<close> members the report has \<open>N * N\<close> rows. The node list is
  sorted by (name, port), a permutation of the list ordered by the comparator, and the
  rows follow the nested order of that sorted list: all targets in sorted order for the
  first source, then for the second, and so on. When the nodes have distinct (name,
  port) pairs every ordered pair of nodes occurs in exactly one row. When every probe
  returns \<^verbatim>\<open>RESPONSE_OKAY\<close> with a true reply, every row has success true.
\<close>

theorem connectivity_matrix_all_pairs:
  fixes env :: environment
  defines "nodes \<equiv> activeReadableNodeList env"
    and "sortedList \<equiv> SortList (activeReadableNodeList env) CompareWorkerNodes"
    and "rows \<equiv> fst (StoreAllConnectivityChecks env)"
  shows "mset sortedList = mset nodes
       \<and> sorted_wrt (\<lambda>a b. CompareWorkerNodes a b \<le> 0) sortedList
       \<and> length rows = length nodes * length nodes
       \<and> map row_endpoints rows = List.product (map node_key sortedList) (map node_key sortedList)
       \<and> (distinct (map node_key nodes) \<longrightarrow>
            distinct (map row_endpoints rows)
            \<and> set (map row_endpoints rows) = set (map node_key nodes) \<times> set (map node_key nodes))
       \<and> ((\<forall>i. \<forall>s \<in> set nodes. \<forall>t \<in> set nodes.
               fst (probe_reply env i s t) = RESPONSE_OKAY
               \<and> parseBoolField env (snd (probe_reply env i s t)) 0 0) \<longrightarrow>
            (\<forall>row \<in> set rows. checkSuccess row = Some True))"
proof -
  have perm: "mset sortedList = mset nodes"
    by (simp add: sortedList_def nodes_def mset_SortList)
  have ordered: "sorted_wrt (\<lambda>a b. CompareWorkerNodes a b \<le> 0) sortedList"
    by (simp add: sortedList_def sorted_SortList)
  have count: "length rows = length nodes * length nodes"
    by (simp add: rows_def nodes_def StoreAllConnectivityChecks_length)
  have order: "map row_endpoints rows =
      List.product (map node_key sortedList) (map node_key sortedList)"
    by (simp add: rows_def sortedList_def StoreAllConnectivityChecks_endpoints)
  have once: "distinct (map row_endpoints rows)
      \<and> set (map row_endpoints rows) = set (map node_key nodes) \<times> set (map node_key nodes)"
    if "distinct (map node_key nodes)"
  proof -
    have "distinct (map node_key sortedList)"
      using that by (simp add: sortedList_def nodes_def distinct_keys_SortList)
    moreover have "set sortedList = set nodes"
      by (simp add: sortedList_def nodes_def set_SortList)
    ultimately show ?thesis
      by (simp add: order distinct_product)
  qed
  have reachable: "\<forall>row \<in> set rows. checkSuccess row = Some True"
    if ok: "\<forall>i. \<forall>s \<in> set nodes. \<forall>t \<in> set nodes.
               fst (probe_reply env i s t) = RESPONSE_OKAY
               \<and> parseBoolField env (snd (probe_reply env i s t)) 0 0"
  proof
    fix row
    assume "row \<in> set rows"
    then obtain i j where ij: "i < length nodes" "j < length nodes"
        "row = fst (StoreAllConnectivityChecks env) ! (i * length nodes + j)"
      using StoreAllConnectivityChecks_row [of row env] by (auto simp: rows_def nodes_def)
    have "i < length sortedList" "j < length sortedList"
      using ij(1,2) by (simp_all add: sortedList_def nodes_def length_SortList)
    then have "sortedList ! i \<in> set sortedList" "sortedList ! j \<in> set sortedList"
      by (simp_all only: nth_mem)
    then have members: "sortedList ! i \<in> set nodes" "sortedList ! j \<in> set nodes"
      by (simp_all only: sortedList_def nodes_def set_SortList)
    have "row = check_target env
        (GetNodeConnection env i 0 (workerName (sortedList ! i)) (workerPort (sortedList ! i)))
        (sortedList ! i) (sortedList ! j)"
      using ij StoreAllConnectivityChecks_nth [of i env j]
      by (simp add: nodes_def sortedList_def)
    then show "checkSuccess row = Some True"
      using ok members by (simp add: check_target_success)
  qed
  show ?thesis
  proof (intro conjI impI)
    show "mset sortedList = mset nodes" by (rule perm)
    show "sorted_wrt (\<lambda>a b. CompareWorkerNodes a b \<le> 0) sortedList" by (rule ordered)
    show "length rows = length nodes * length nodes" by (rule count)
    show "map row_endpoints rows =
        List.product (map node_key sortedList) (map node_key sortedList)" by (rule order)
    show "distinct (map row_endpoints rows)" if "distinct (map node_key nodes)"
      using once [OF that] by (rule conjunct1)
    show "set (map row_endpoints rows) = set (map node_key nodes) \<times> set (map node_key nodes)"
      if "distinct (map node_key nodes)"
      using once [OF that] by (rule conjunct2)
    show "\<forall>row \<in> set rows. checkSuccess row = Some True"
      if "\<forall>i. \<forall>s \<in> set nodes. \<forall>t \<in> set nodes.
               fst (probe_reply env i s t) = RESPONSE_OKAY
               \<and> parseBoolField env (snd (probe_reply env i s t)) 0 0"
      using reachable [OF that] .
  qed
qed

theorem connectivity_matrix_all_pairs_witness:
  "distinct (map node_key (activeReadableNodeList reachable_cluster))
   \<and> length (fst (StoreAllConnectivityChecks reachable_cluster)) = 4
   \<and> distinct (map row_endpoints (fst (StoreAllConnectivityChecks reachable_cluster)))
   \<and> list_all (\<lambda>row. checkSuccess row = Some True)
         (fst (StoreAllConnectivityChecks reachable_cluster))"
proof -
  have nodes: "activeReadableNodeList reachable_cluster =
      [\<lparr>workerName = ''worker-b'', workerPort = 5432\<rparr>,
       \<lparr>workerName = ''worker-a'', workerPort = 5432\<rparr>]"
    by (simp add: reachable_cluster_def example_cluster_def)
  have keys: "distinct (map node_key (activeReadableNodeList reachable_cluster))"
    by (simp add: nodes node_key_def)
  have replies: "\<forall>i. \<forall>s \<in> set (activeReadableNodeList reachable_cluster).
      \<forall>t \<in> set (activeReadableNodeList reachable_cluster).
        fst (probe_reply reachable_cluster i s t) = RESPONSE_OKAY
        \<and> parseBoolField reachable_cluster (snd (probe_reply reachable_cluster i s t)) 0 0"
    by (simp add: probe_reply_def reachable_cluster_def example_cluster_def
          example_result_def pgresult_cell_def)
  note matrix = connectivity_matrix_all_pairs [of reachable_cluster]
  have count: "length (fst (StoreAllConnectivityChecks reachable_cluster)) = 4"
    using matrix [THEN conjunct2, THEN conjunct2, THEN conjunct1] by (simp add: nodes)
  have once: "distinct (map row_endpoints (fst (StoreAllConnectivityChecks reachable_cluster)))"
    using matrix [THEN conjunct2, THEN conjunct2, THEN conjunct2, THEN conjunct2, THEN conjunct1]
      keys by (rule_tac conjunct1) (rule mp)
  have up: "\<forall>row \<in> set (fst (StoreAllConnectivityChecks reachable_cluster)).
      checkSuccess row = Some True"
    using matrix [THEN conjunct2, THEN conjunct2, THEN conjunct2, THEN conjunct2, THEN conjunct2]
      replies by (rule mp)
  from keys count once up show ?thesis
    by (simp only: list_all_iff simp_thms)
qed

subsection \<open>The executors\<close>

lemma events_of_append [simp]: "events_of j (xs @ ys) = events_of j xs @ events_of j ys"
  by (simp add: events_of_def)

lemma events_of_Nil [simp]: "events_of j [] = []"
  by (simp add: events_of_def)

lemma events_of_Cons:
  "events_of j (e # es) = (if event_connection e = j then e # events_of j es else events_of j es)"
  by (simp add: events_of_def)

lemma count_None_update:
  "i < length xs \<Longrightarrow> xs ! i = Some c \<Longrightarrow>
   length (filter (\<lambda>c. c = None) (xs[i := None])) = Suc (length (filter (\<lambda>c. c = None) xs))"
proof (induction xs arbitrary: i)
  case Nil
  then show ?case by simp
next
  case (Cons x xs)
  then show ?case by (cases i) auto
qed

lemma start_connection_slot:
  assumes "i < n" and "arrays_sized n st" and "j < n"
  shows "slot_of (start_connection env names ports i st) j =
           (if j = i then started_slot env names ports i (slot_of st i) else slot_of st j)"
  using assms
  by (auto simp: start_connection_def slot_of_def started_slot_def arrays_sized_def Let_def
        events_of_Cons)

lemma start_connection_sized:
  "arrays_sized n st \<Longrightarrow> arrays_sized n (start_connection env names ports i st)"
  by (simp add: start_connection_def arrays_sized_def Let_def)

lemma start_connection_finishedCount:
  "finishedCount (start_connection env names ports i st) = finishedCount st"
  by (simp add: start_connection_def Let_def)

lemma establish_connection_slot:
  assumes "i < n" and "arrays_sized n st" and "j < n"
  shows "slot_of (establish_connection names ports i st) j =
           (if j = i then established_slot names ports i (slot_of st i) else slot_of st j)"
  using assms
  by (auto simp: establish_connection_def slot_of_def established_slot_def arrays_sized_def
        Let_def split: option.split)

lemma establish_connection_sized:
  "arrays_sized n st \<Longrightarrow> arrays_sized n (establish_connection names ports i st)"
  by (simp add: establish_connection_def arrays_sized_def Let_def split: option.split)

lemma establish_connection_counted:
  "i < n \<Longrightarrow> arrays_sized n st \<Longrightarrow> finished_counted st \<Longrightarrow>
   finished_counted (establish_connection names ports i st)"
  by (simp add: establish_connection_def arrays_sized_def finished_counted_def Let_def
        count_None_update split: option.split)

lemma send_query_slot:
  assumes "i < n" and "arrays_sized n st" and "j < n"
  shows "slot_of (send_query commands i st) j =
           (if j = i then sent_slot commands i (slot_of st i) else slot_of st j)"
  using assms
  by (auto simp: send_query_def slot_of_def sent_slot_def arrays_sized_def
        Let_def events_of_Cons split: option.split)

lemma send_query_sized:
  "arrays_sized n st \<Longrightarrow> arrays_sized n (send_query commands i st)"
  by (simp add: send_query_def arrays_sized_def Let_def split: option.split)

lemma send_query_counted:
  "i < n \<Longrightarrow> arrays_sized n st \<Longrightarrow> finished_counted st \<Longrightarrow>
   finished_counted (send_query commands i st)"
  by (simp add: send_query_def arrays_sized_def finished_counted_def Let_def
        count_None_update split: option.split)

lemma check_query_result_slot:
  assumes "i < n" and "arrays_sized n st" and "j < n"
  shows "slot_of (check_query_result sweep i st) j =
           (if j = i then polled_slot i sweep (slot_of st i) else slot_of st j)"
  using assms
  by (auto simp: check_query_result_def slot_of_def polled_slot_def arrays_sized_def
        Let_def events_of_Cons split: option.split prod.split)

lemma check_query_result_sized:
  "arrays_sized n st \<Longrightarrow> arrays_sized n (check_query_result sweep i st)"
  by (simp add: check_query_result_def arrays_sized_def Let_def split: option.split prod.split)

lemma check_query_result_counted:
  "i < n \<Longrightarrow> arrays_sized n st \<Longrightarrow> finished_counted st \<Longrightarrow>
   finished_counted (check_query_result sweep i st)"
  by (simp add: check_query_result_def arrays_sized_def finished_counted_def Let_def
        count_None_update split: option.split prod.split)

lemma fold_upt_slots:
  assumes step: "\<And>i st. i < n \<Longrightarrow> P st \<Longrightarrow>
        P (body i st) \<and> (\<forall>j<n. view (body i st) j = (if j = i then upd i (view st i) else view st j))"
    and init: "P st"
    and bound: "m \<le> n"
  shows "P (fold body [0..<m] st)
       \<and> (\<forall>j<n. view (fold body [0..<m] st) j = (if j < m then upd j (view st j) else view st j))"
  using bound
proof (induction m)
  case 0
  then show ?case using init by simp
next
  case (Suc m)
  then have m: "m < n" and IH: "P (fold body [0..<m] st)"
    "\<forall>j<n. view (fold body [0..<m] st) j = (if j < m then upd j (view st j) else view st j)"
    by simp_all
  have fold_Suc: "fold body [0..<Suc m] st = body m (fold body [0..<m] st)"
    by simp
  from step [OF m IH(1)] IH(2) m show ?case
    unfolding fold_Suc by (auto simp: less_Suc_eq)
qed

lemma filter_None_empty:
  assumes "\<forall>j < length xs. xs ! j \<noteq> None"
  shows "filter (\<lambda>c. c = None) xs = []"
  using assms by (auto simp: filter_empty_conv in_set_conv_nth)

lemma start_phase:
  assumes "arrays_sized n st" and "finishedCount st = 0"
  shows "arrays_sized n (fold (start_connection env names ports) [0..<n] st)
       \<and> finished_counted (fold (start_connection env names ports) [0..<n] st)
       \<and> (\<forall>j<n. slot_of (fold (start_connection env names ports) [0..<n] st) j =
               started_slot env names ports j (slot_of st j))"
proof -
  let ?st1 = "fold (start_connection env names ports) [0..<n] st"
  have "(arrays_sized n ?st1 \<and> finishedCount ?st1 = 0)
      \<and> (\<forall>j<n. slot_of ?st1 j =
            (if j < n then started_slot env names ports j (slot_of st j) else slot_of st j))"
    by (rule fold_upt_slots [where P = "\<lambda>st. arrays_sized n st \<and> finishedCount st = 0"])
       (simp_all add: assms start_connection_slot start_connection_sized
          start_connection_finishedCount)
  then have sized: "arrays_sized n ?st1" and zero: "finishedCount ?st1 = 0"
    and slots: "\<forall>j<n. slot_of ?st1 j = started_slot env names ports j (slot_of st j)"
    by simp_all
  have "\<forall>j < length (connectionArray ?st1). connectionArray ?st1 ! j \<noteq> None"
  proof (intro allI impI)
    fix j
    assume "j < length (connectionArray ?st1)"
    then have "j < n" using sized by (simp add: arrays_sized_def)
    with slots have "fst (slot_of ?st1 j) \<noteq> None"
      by (simp add: started_slot_def split: prod.split)
    then show "connectionArray ?st1 ! j \<noteq> None"
      by (simp add: slot_of_def)
  qed
  then have "finished_counted ?st1"
    using zero by (simp add: finished_counted_def filter_None_empty)
  with sized slots show ?thesis by simp
qed

lemma establish_phase:
  assumes "arrays_sized n st" and "finished_counted st"
  shows "arrays_sized n (fold (establish_connection names ports) [0..<n] st)
       \<and> finished_counted (fold (establish_connection names ports) [0..<n] st)
       \<and> (\<forall>j<n. slot_of (fold (establish_connection names ports) [0..<n] st) j =
               established_slot names ports j (slot_of st j))"
proof -
  let ?st1 = "fold (establish_connection names ports) [0..<n] st"
  have "(arrays_sized n ?st1 \<and> finished_counted ?st1)
      \<and> (\<forall>j<n. slot_of ?st1 j =
            (if j < n then established_slot names ports j (slot_of st j) else slot_of st j))"
    by (rule fold_upt_slots [where P = "\<lambda>st. arrays_sized n st \<and> finished_counted st"])
       (simp_all add: assms establish_connection_slot establish_connection_sized
          establish_connection_counted)
  then show ?thesis by simp
qed

lemma send_phase:
  assumes "arrays_sized n st" and "finished_counted st"
  shows "arrays_sized n (fold (send_query commands) [0..<n] st)
       \<and> finished_counted (fold (send_query commands) [0..<n] st)
       \<and> (\<forall>j<n. slot_of (fold (send_query commands) [0..<n] st) j =
               sent_slot commands j (slot_of st j))"
proof -
  let ?st1 = "fold (send_query commands) [0..<n] st"
  have "(arrays_sized n ?st1 \<and> finished_counted ?st1)
      \<and> (\<forall>j<n. slot_of ?st1 j =
            (if j < n then sent_slot commands j (slot_of st j) else slot_of st j))"
    by (rule fold_upt_slots [where P = "\<lambda>st. arrays_sized n st \<and> finished_counted st"])
       (simp_all add: assms send_query_slot send_query_sized send_query_counted)
  then show ?thesis by simp
qed

lemma sweep_phase:
  assumes "arrays_sized n st" and "finished_counted st"
  shows "arrays_sized n (fold (check_query_result sweep) [0..<n] st)
       \<and> finished_counted (fold (check_query_result sweep) [0..<n] st)
       \<and> (\<forall>j<n. slot_of (fold (check_query_result sweep) [0..<n] st) j =
               polled_slot j sweep (slot_of st j))"
proof -
  let ?st1 = "fold (check_query_result sweep) [0..<n] st"
  have "(arrays_sized n ?st1 \<and> finished_counted ?st1)
      \<and> (\<forall>j<n. slot_of ?st1 j =
            (if j < n then polled_slot j sweep (slot_of st j) else slot_of st j))"
    by (rule fold_upt_slots [where P = "\<lambda>st. arrays_sized n st \<and> finished_counted st"])
       (simp_all add: assms check_query_result_slot check_query_result_sized
          check_query_result_counted)
  then show ?thesis by simp
qed

lemma ExecuteCommandsInParallelAndStoreResults_unfold:
  "ExecuteCommandsInParallelAndStoreResults env fuel names ports commands statusArray0
       resultStringArray0 n =
     poll_loop env n fuel 0
       (parallel_start_state env names ports commands statusArray0 resultStringArray0 n)"
  by (simp add: ExecuteCommandsInParallelAndStoreResults_def parallel_start_state_def Let_def)

lemma parallel_start_state_slots:
  assumes "length statusArray0 = n" and "length resultStringArray0 = n"
  shows "arrays_sized n (parallel_start_state env names ports commands statusArray0 resultStringArray0 n)
       \<and> finished_counted (parallel_start_state env names ports commands statusArray0 resultStringArray0 n)
       \<and> (\<forall>j<n. slot_of (parallel_start_state env names ports commands statusArray0 resultStringArray0 n) j =
               connected_slot env names ports commands j
                 (None, statusArray0 ! j, resultStringArray0 ! j, []))"
proof -
  let ?st0 = "\<lparr>statusArray = statusArray0, resultStringArray = resultStringArray0,
              connectionLog = [], connectionArray = replicate n None,
              finishedCount = 0\<rparr> :: parallel_state"
  let ?st1 = "fold (start_connection env names ports) [0..<n] ?st0"
  let ?st2 = "fold (establish_connection names ports) [0..<n] ?st1"
  let ?st3 = "fold (send_query commands) [0..<n] ?st2"
  have sized0: "arrays_sized n ?st0" and zero0: "finishedCount ?st0 = 0"
    using assms by (simp_all add: arrays_sized_def)
  have slots0: "\<forall>j<n. slot_of ?st0 j = (None, statusArray0 ! j, resultStringArray0 ! j, [])"
    by (simp add: slot_of_def)
  note p1 = start_phase [OF sized0 zero0, of env names ports]
  note p2 = establish_phase [OF p1 [THEN conjunct1] p1 [THEN conjunct2, THEN conjunct1],
      of names ports]
  note p3 = send_phase [OF p2 [THEN conjunct1] p2 [THEN conjunct2, THEN conjunct1], of commands]
  have "\<forall>j<n. slot_of ?st3 j =
      connected_slot env names ports commands j (None, statusArray0 ! j, resultStringArray0 ! j, [])"
    using p1 [THEN conjunct2, THEN conjunct2] p2 [THEN conjunct2, THEN conjunct2]
      p3 [THEN conjunct2, THEN conjunct2] slots0
    by (simp add: connected_slot_def)
  with p3 show ?thesis
    by (simp add: parallel_start_state_def)
qed

lemma GetConnectionStatusAndResult_finished:
  "fst (GetConnectionStatusAndResult c sweep r) = queryFinishedAt (pgConn c) sweep"
  by (auto simp: GetConnectionStatusAndResult_def queryFinishedAt_def Let_def split: prod.split)

lemma polled_slot_closed [simp]: "polled_slot j sweep (None, s, r, ev) = (None, s, r, ev)"
  by (simp add: polled_slot_def)

lemma polled_slot_open:
  "fst (polled_slot j sweep (Some c, s, r, ev)) =
     (if queryFinishedAt (pgConn c) sweep then None else Some c)"
  using GetConnectionStatusAndResult_finished [of c sweep r]
  by (auto simp: polled_slot_def split: prod.split)

lemma polled_slot_still_open:
  assumes "fst (polled_slot j sweep sl) = Some c"
  shows "fst sl = Some c \<and> \<not> queryFinishedAt (pgConn c) sweep"
proof (cases sl)
  case (fields c0 s r ev)
  show ?thesis
  proof (cases c0)
    case None
    with fields assms show ?thesis by simp
  next
    case (Some c')
    with fields assms polled_slot_open [of j sweep c' s r ev] show ?thesis
      by (auto split: if_splits)
  qed
qed

lemma open_slots_iff:
  assumes "arrays_sized n st" and "finished_counted st"
  shows "finishedCount st < n \<longleftrightarrow> (\<exists>j<n. fst (slot_of st j) \<noteq> None)"
proof -
  let ?xs = "connectionArray st"
  have len: "length ?xs = n" using assms(1) by (simp add: arrays_sized_def)
  have cnt: "finishedCount st = length (filter (\<lambda>c. c = None) ?xs)"
    using assms(2) by (simp add: finished_counted_def)
  have "length (filter (\<lambda>c. c = None) ?xs) < length ?xs \<longleftrightarrow> (\<exists>x \<in> set ?xs. x \<noteq> None)"
  proof
    assume less: "length (filter (\<lambda>c. c = None) ?xs) < length ?xs"
    show "\<exists>x \<in> set ?xs. x \<noteq> None"
    proof (rule ccontr)
      assume "\<not> (\<exists>x \<in> set ?xs. x \<noteq> None)"
      then have "filter (\<lambda>c. c = None) ?xs = ?xs"
        by (simp add: filter_id_conv)
      with less show False by simp
    qed
  next
    assume "\<exists>x \<in> set ?xs. x \<noteq> None"
    then show "length (filter (\<lambda>c. c = None) ?xs) < length ?xs"
      by (auto intro: length_filter_less)
  qed
  also have "\<dots> \<longleftrightarrow> (\<exists>j<n. ?xs ! j \<noteq> None)"
    using len by (metis in_set_conv_nth)
  finally show ?thesis
    by (simp add: cnt len slot_of_def)
qed

lemma poll_loop_result:
  assumes "poll_loop env n fuel sweep st = Some (raised, st')"
    and "arrays_sized n st" and "finished_counted st"
  shows "\<exists>m. arrays_sized n st' \<and> finished_counted st'
           \<and> (\<forall>j<n. slot_of st' j = fold (polled_slot j) [sweep..<sweep + m] (slot_of st j))
           \<and> (raised = None \<longrightarrow> (\<forall>j<n. fst (slot_of st' j) = None))
           \<and> (raised \<noteq> None \<longrightarrow>
                raised = Some QueryCanceled \<and> 0 < m \<and> interruptPending env (sweep + m - 1))"
  using assms
proof (induction fuel arbitrary: sweep st)
  case 0
  then have finished: "\<not> finishedCount st < n" and same: "st' = st" "raised = None"
    by (auto split: if_splits)
  from finished open_slots_iff [OF "0.prems"(2,3)] have "\<forall>j<n. fst (slot_of st j) = None"
    by simp
  with same "0.prems"(2,3) show ?case
    by (intro exI [of _ 0]) simp
next
  case (Suc fuel)
  show ?case
  proof (cases "finishedCount st < n")
    case False
    with Suc.prems(1) have same: "st' = st" "raised = None" by simp_all
    from False open_slots_iff [OF Suc.prems(2,3)] have "\<forall>j<n. fst (slot_of st j) = None"
      by simp
    with same Suc.prems(2,3) show ?thesis
      by (intro exI [of _ 0]) simp
  next
    case True
    let ?st1 = "fold (check_query_result sweep) [0..<n] st"
    note sw = sweep_phase [OF Suc.prems(2,3), of sweep]
    show ?thesis
    proof (cases "interruptPending env sweep")
      case interrupted: True
      with True Suc.prems(1) have res: "st' = ?st1" "raised = Some QueryCanceled"
        by (simp_all add: Let_def)
      show ?thesis
        using sw res interrupted by (intro exI [of _ 1]) simp
    next
      case False
      with True Suc.prems(1) have "poll_loop env n fuel (Suc sweep) ?st1 = Some (raised, st')"
        by (simp add: Let_def)
      from Suc.IH [OF this sw [THEN conjunct1] sw [THEN conjunct2, THEN conjunct1]]
      obtain m where m: "arrays_sized n st'" "finished_counted st'"
        "\<forall>j<n. slot_of st' j = fold (polled_slot j) [Suc sweep..<Suc sweep + m] (slot_of ?st1 j)"
        "raised = None \<longrightarrow> (\<forall>j<n. fst (slot_of st' j) = None)"
        "raised \<noteq> None \<longrightarrow>
           raised = Some QueryCanceled \<and> 0 < m \<and> interruptPending env (Suc sweep + m - 1)"
        by blast
      have range: "fold (polled_slot j) [sweep..<sweep + Suc m] sl =
          fold (polled_slot j) [Suc sweep..<Suc sweep + m] (polled_slot j sweep sl)" for j sl
        by (simp add: upt_conv_Cons del: upt_Suc)
      have "\<forall>j<n. slot_of st' j = fold (polled_slot j) [sweep..<sweep + Suc m] (slot_of st j)"
        using m(3) sw [THEN conjunct2, THEN conjunct2]
        unfolding range by simp
      moreover have "raised \<noteq> None \<longrightarrow>
          raised = Some QueryCanceled \<and> 0 < Suc m \<and> interruptPending env (sweep + Suc m - 1)"
        using m(5) by (cases m) auto
      ultimately show ?thesis
        using m(1,2,4) by (intro exI [of _ "Suc m"]) blast
    qed
  qed
qed

lemma poll_loop_returns:
  assumes "arrays_sized n st" and "finished_counted st"
    and "\<forall>k. \<not> interruptPending env k"
    and "\<forall>j<n. \<forall>c. fst (slot_of st j) = Some c \<longrightarrow>
           (\<exists>k. sweep \<le> k \<and> k < sweep + fuel \<and> queryFinishedAt (pgConn c) k)"
  shows "\<exists>st'. poll_loop env n fuel sweep st = Some (None, st')"
  using assms(1,2,4)
proof (induction fuel arbitrary: sweep st)
  case 0
  then have "\<forall>j<n. fst (slot_of st j) = None"
    by (metis not_Some_eq add.right_neutral not_le)
  with open_slots_iff [OF "0.prems"(1,2)] show ?case by simp
next
  case (Suc fuel)
  show ?case
  proof (cases "finishedCount st < n")
    case False
    then show ?thesis by simp
  next
    case True
    let ?st1 = "fold (check_query_result sweep) [0..<n] st"
    note sw = sweep_phase [OF Suc.prems(1,2), of sweep]
    have later: "\<forall>j<n. \<forall>c. fst (slot_of ?st1 j) = Some c \<longrightarrow>
           (\<exists>k. Suc sweep \<le> k \<and> k < Suc sweep + fuel \<and> queryFinishedAt (pgConn c) k)"
    proof (intro allI impI)
      fix j c
      assume j: "j < n" and "fst (slot_of ?st1 j) = Some c"
      then have "fst (polled_slot j sweep (slot_of st j)) = Some c"
        using sw by simp
      from polled_slot_still_open [OF this]
      have was: "fst (slot_of st j) = Some c" and busy: "\<not> queryFinishedAt (pgConn c) sweep"
        by simp_all
      from Suc.prems(3) j was obtain k where
        k: "sweep \<le> k" "k < sweep + Suc fuel" "queryFinishedAt (pgConn c) k"
        by blast
      with busy have "k \<noteq> sweep" by auto
      with k show "\<exists>k. Suc sweep \<le> k \<and> k < Suc sweep + fuel \<and> queryFinishedAt (pgConn c) k"
        by (intro exI [of _ k]) simp
    qed
    from Suc.IH [OF sw [THEN conjunct1] sw [THEN conjunct2, THEN conjunct1] later]
    obtain st' where "poll_loop env n fuel (Suc sweep) ?st1 = Some (None, st')"
      by blast
    with True assms(3) show ?thesis
      by (simp add: Let_def)
  qed
qed

lemma connected_slot_cases:
  "connected_slot env names ports commands j (None, s, r, []) =
     (let c = StartNodeConnection env j FORCE_NEW_CONNECTION (names ! j) (ports ! j);
          opened = ConnectionOpened j FORCE_NEW_CONNECTION (names ! j) (ports ! j)
      in if establishedStatus (network env j) \<noteq> CONNECTION_OK then
           (None, False,
            r @ ''failed to connect to '' @ names ! j @ '':'' @ format_d (sint (ports ! j)),
            [opened])
         else if querySent (network env j) = 0 then
           (None, False, StoreErrorMessage c r,
            [opened, CommandSent j (commands ! j), ConnectionClosed j])
         else (Some c, True, r, [opened, CommandSent j (commands ! j)]))"
  by (simp add: connected_slot_def started_slot_def established_slot_def sent_slot_def
        StartNodeConnection_def Let_def)

lemma connected_slot_open:
  assumes "fst (connected_slot env names ports commands j (None, s, r, [])) = Some c"
  shows "pgConn c = network env j \<and> establishedStatus (network env j) = CONNECTION_OK
       \<and> querySent (network env j) \<noteq> 0"
  using assms
  by (auto simp: connected_slot_cases Let_def StartNodeConnection_def split: if_splits)

lemma fold_polled_slot_closed [simp]:
  "fold (polled_slot j) sweeps (None, s, r, ev) = (None, s, r, ev)"
  by (induction sweeps) simp_all


lemma parallel_run_result:
  assumes run: "ExecuteCommandsInParallelAndStoreResults env fuel names ports commands
        statusArray0 resultStringArray0 n = Some (raised, st')"
    and lens: "length statusArray0 = n" "length resultStringArray0 = n"
  shows "\<exists>m. arrays_sized n st'
           \<and> (\<forall>j<n. slot_of st' j =
                 fold (polled_slot j) [0..<m]
                   (connected_slot env names ports commands j
                      (None, statusArray0 ! j, resultStringArray0 ! j, [])))
           \<and> (raised = None \<longrightarrow> (\<forall>j<n. fst (slot_of st' j) = None))
           \<and> (raised \<noteq> None \<longrightarrow>
                raised = Some QueryCanceled \<and> 0 < m \<and> interruptPending env (m - 1))"
proof -
  let ?st3 = "parallel_start_state env names ports commands statusArray0 resultStringArray0 n"
  note start = parallel_start_state_slots [OF lens, of env names ports commands]
  from run have "poll_loop env n fuel 0 ?st3 = Some (raised, st')"
    by (simp add: ExecuteCommandsInParallelAndStoreResults_unfold)
  from poll_loop_result [OF this start [THEN conjunct1] start [THEN conjunct2, THEN conjunct1]]
  obtain m where m: "arrays_sized n st'"
    "\<forall>j<n. slot_of st' j = fold (polled_slot j) [0..<0 + m] (slot_of ?st3 j)"
    "raised = None \<longrightarrow> (\<forall>j<n. fst (slot_of st' j) = None)"
    "raised \<noteq> None \<longrightarrow> raised = Some QueryCanceled \<and> 0 < m \<and> interruptPending env (0 + m - 1)"
    by blast
  from m(2) start [THEN conjunct2, THEN conjunct2]
  have "\<forall>j<n. slot_of st' j =
      fold (polled_slot j) [0..<m]
        (connected_slot env names ports commands j
           (None, statusArray0 ! j, resultStringArray0 ! j, []))"
    by simp
  with m(1,3,4) show ?thesis
    by (intro exI [of _ m]) simp
qed

lemma parallel_run_returns:
  assumes lens: "length statusArray0 = n" "length resultStringArray0 = n"
    and calm: "\<forall>k. \<not> interruptPending env k"
    and answered: "\<forall>j<n. establishedStatus (network env j) = CONNECTION_OK
          \<and> querySent (network env j) \<noteq> 0 \<longrightarrow>
          (\<exists>k<fuel. queryFinishedAt (network env j) k)"
  shows "\<exists>st'. ExecuteCommandsInParallelAndStoreResults env fuel names ports commands
        statusArray0 resultStringArray0 n = Some (None, st')"
proof -
  let ?st3 = "parallel_start_state env names ports commands statusArray0 resultStringArray0 n"
  note start = parallel_start_state_slots [OF lens, of env names ports commands]
  have "\<forall>j<n. \<forall>c. fst (slot_of ?st3 j) = Some c \<longrightarrow>
           (\<exists>k. 0 \<le> k \<and> k < 0 + fuel \<and> queryFinishedAt (pgConn c) k)"
  proof (intro allI impI)
    fix j c
    assume j: "j < n" and "fst (slot_of ?st3 j) = Some c"
    with start have "fst (connected_slot env names ports commands j
        (None, statusArray0 ! j, resultStringArray0 ! j, [])) = Some c"
      by simp
    from connected_slot_open [OF this] answered j
    show "\<exists>k. 0 \<le> k \<and> k < 0 + fuel \<and> queryFinishedAt (pgConn c) k"
      by auto
  qed
  from poll_loop_returns [OF start [THEN conjunct1] start [THEN conjunct2, THEN conjunct1]
      calm this]
  show ?thesis
    by (simp add: ExecuteCommandsInParallelAndStoreResults_unfold)
qed

lemma ExecuteRemoteQueryOrCommand_raises:
  "fst (ExecuteRemoteQueryOrCommand env j nodeName nodePort queryString r) = Inl e \<longleftrightarrow>
     waitInterrupted (network env j) \<and> e = QueryCanceled"
  by (auto simp: ExecuteRemoteQueryOrCommand_def waitInterrupted_def GetNodeConnection_def
        StartNodeConnection_def Let_def split: option.split prod.split)

lemma ExecuteRemoteQueryOrCommand_events:
  "events_of i (snd (snd (ExecuteRemoteQueryOrCommand env j nodeName nodePort queryString r))) =
     (if i = j then snd (snd (ExecuteRemoteQueryOrCommand env j nodeName nodePort queryString r))
      else [])"
  by (auto simp: ExecuteRemoteQueryOrCommand_def Let_def events_of_Cons
        split: option.split prod.split)

lemma ExecuteCommandsAndStoreResults_from_result:
  assumes "ExecuteCommandsAndStoreResults_from env names ports commands n k st = (raised, st')"
    and "length (statusArray st) = n" and "length (resultStringArray st) = n"
    and "k \<le> n"
  shows "\<exists>m. k \<le> m \<and> m \<le> n
           \<and> length (statusArray st') = n \<and> length (resultStringArray st') = n
           \<and> (\<forall>j<n. outcome_of st' j =
                 (if k \<le> j \<and> j < m
                  then sequential_slot env names ports commands j (outcome_of st j)
                  else outcome_of st j))
           \<and> (raised = None \<longrightarrow> m = n)
           \<and> (raised \<noteq> None \<longrightarrow>
                raised = Some QueryCanceled \<and> k < m
                \<and> (waitInterrupted (network env (m - 1)) \<or> interruptPending env (m - 1)))"
  using assms
proof (induction "n - k" arbitrary: k st)
  case 0
  then have "k = n" by simp
  with "0.prems"(1) have "raised = None" "st' = st"
    by (simp_all add: ExecuteCommandsAndStoreResults_from.simps)
  with \<open>k = n\<close> "0.prems"(2,3) show ?case
    by (intro exI [of _ n]) simp
next
  case (Suc d)
  then have k: "k < n" by simp
  obtain succ r' events where E:
    "ExecuteRemoteQueryOrCommand env k (names ! k) (ports ! k) (commands ! k)
       (resultStringArray st ! k) = (succ, r', events)"
    by (cases "ExecuteRemoteQueryOrCommand env k (names ! k) (ports ! k) (commands ! k)
       (resultStringArray st ! k)") auto
  let ?st1 = "st\<lparr>resultStringArray := (resultStringArray st)[k := r'],
                 connectionLog := connectionLog st @ events\<rparr>"
  have ev: "events_of j events = (if j = k then events else [])" for j
    using ExecuteRemoteQueryOrCommand_events [of j env k "names ! k" "ports ! k" "commands ! k"
        "resultStringArray st ! k"] E by simp
  show ?case
  proof (cases succ)
    case (Inl e)
    with E k Suc.prems(1) have res: "raised = Some e" "st' = ?st1"
      by (simp_all add: ExecuteCommandsAndStoreResults_from.simps [of env names ports commands n k st])
    from Inl E ExecuteRemoteQueryOrCommand_raises [of env k "names ! k" "ports ! k" "commands ! k"
        "resultStringArray st ! k" e]
    have e: "e = QueryCanceled" "waitInterrupted (network env k)" by simp_all
    have "\<forall>j<n. outcome_of st' j =
        (if k \<le> j \<and> j < Suc k
         then sequential_slot env names ports commands j (outcome_of st j)
         else outcome_of st j)"
      using Suc.prems(2,3) E Inl
      by (auto simp: res outcome_of_def sequential_slot_def ev)
    with res e k Suc.prems(2,3) show ?thesis
      by (intro exI [of _ "Suc k"]) simp
  next
    case (Inr ok)
    let ?st2 = "?st1\<lparr>statusArray := (statusArray ?st1)[k := ok]\<rparr>"
    have step: "\<forall>j<n. outcome_of ?st2 j =
        (if j = k then sequential_slot env names ports commands j (outcome_of st j)
         else outcome_of st j)"
      using Suc.prems(2,3) E Inr
      by (auto simp: outcome_of_def sequential_slot_def ev)
    have lens2: "length (statusArray ?st2) = n" "length (resultStringArray ?st2) = n"
      using Suc.prems(2,3) by simp_all
    show ?thesis
    proof (cases "interruptPending env k")
      case True
      with E Inr k Suc.prems(1) have res: "raised = Some QueryCanceled" "st' = ?st2"
        by (simp_all add: ExecuteCommandsAndStoreResults_from.simps [of env names ports commands n k st])
      have "\<forall>j<n. outcome_of st' j =
          (if k \<le> j \<and> j < Suc k
           then sequential_slot env names ports commands j (outcome_of st j)
           else outcome_of st j)"
        using step unfolding res by (auto simp: less_Suc_eq_le)
      with res True k lens2 show ?thesis
        by (intro exI [of _ "Suc k"]) auto
    next
      case False
      with E Inr k Suc.prems(1)
      have rest: "ExecuteCommandsAndStoreResults_from env names ports commands n (Suc k) ?st2 =
          (raised, st')"
        by (simp add: ExecuteCommandsAndStoreResults_from.simps [of env names ports commands n k st])
      have d: "d = n - Suc k" using Suc.hyps(2) by simp
      from Suc.hyps(1) [OF d rest lens2] k
      obtain m where m: "Suc k \<le> m" "m \<le> n"
        "length (statusArray st') = n" "length (resultStringArray st') = n"
        "\<forall>j<n. outcome_of st' j =
            (if Suc k \<le> j \<and> j < m
             then sequential_slot env names ports commands j (outcome_of ?st2 j)
             else outcome_of ?st2 j)"
        "raised = None \<longrightarrow> m = n"
        "raised \<noteq> None \<longrightarrow>
           raised = Some QueryCanceled \<and> Suc k < m
           \<and> (waitInterrupted (network env (m - 1)) \<or> interruptPending env (m - 1))"
        by auto
      have "\<forall>j<n. outcome_of st' j =
          (if k \<le> j \<and> j < m
           then sequential_slot env names ports commands j (outcome_of st j)
           else outcome_of st j)"
      proof (intro allI impI)
        fix j
        assume j: "j < n"
        show "outcome_of st' j =
          (if k \<le> j \<and> j < m
           then sequential_slot env names ports commands j (outcome_of st j)
           else outcome_of st j)"
        proof (cases "j = k")
          case True
          with m(1,5) step j show ?thesis by simp
        next
          case False
          with m(5) step j show ?thesis by auto
        qed
      qed
      with m(1,2,3,4,6,7) show ?thesis
        by (intro exI [of _ m]) auto
    qed
  qed
qed

lemma tuple_descriptor_check:
  "(length d \<noteq> 4 \<or> d ! 0 \<noteq> a \<or> d ! 1 \<noteq> b \<or> d ! 2 \<noteq> c \<or> d ! 3 \<noteq> e) \<longleftrightarrow> d \<noteq> [a, b, c, e]"
proof -
  have "d = [a, b, c, e]" if "length d = 4" "d ! 0 = a" "d ! 1 = b" "d ! 2 = c" "d ! 3 = e"
  proof (rule nth_equalityI)
    show "length d = length [a, b, c, e]" using that(1) by simp
    fix i
    assume "i < length d"
    then have "i = 0 \<or> i = 1 \<or> i = 2 \<or> i = 3" using that(1) by auto
    then show "d ! i = [a, b, c, e] ! i" using that(2-) by auto
  qed
  then show ?thesis by auto
qed

lemma ParseCommandParameters_valid:
  assumes "length ports = length names" and "length commands = length names"
  shows "ParseCommandParameters names ports commands parallel =
           Inr (names, ports, commands, parallel, length names)"
  using assms map_nth [of names] map_nth [of ports] map_nth [of commands]
  by (simp add: ParseCommandParameters_def Let_def)

lemma master_run_on_worker_valid:
  assumes "citusVersionOk env" and "rsinfo = Some rs"
    and "allowedModes rs AND SFRM_Materialize \<noteq> 0"
    and "expectedDesc rs = [TEXTOID, INT4OID, BOOLOID, TEXTOID]"
    and "length ports = length names" and "length commands = length names"
  shows "master_run_on_worker env fuel rsinfo names ports commands parallel =
     (case run_executor env fuel names ports commands parallel of
        None \<Rightarrow> None
      | Some (Some e, st) \<Rightarrow> Some \<lparr>returned = Inl e, connectionEvents = connectionLog st\<rparr>
      | Some (None, st) \<Rightarrow>
          Some \<lparr>returned = Inr (CreateTupleStore names ports (statusArray st)
                                 (resultStringArray st) (length names)),
                connectionEvents = connectionLog st\<rparr>)"
  using assms(1-4)
  by (simp add: master_run_on_worker_def ParseCommandParameters_valid [OF assms(5,6)]
        run_executor_def Let_def)

lemma master_run_on_worker_invalid:
  assumes "citusVersionOk env"
    and "rsinfo = None
       \<or> (\<exists>rs. rsinfo = Some rs
             \<and> (allowedModes rs AND SFRM_Materialize = 0
                \<or> expectedDesc rs \<noteq> [TEXTOID, INT4OID, BOOLOID, TEXTOID]))
       \<or> length names \<noteq> length ports \<or> length names \<noteq> length commands"
  shows "\<exists>code message. master_run_on_worker env fuel rsinfo names ports commands parallel =
           Some \<lparr>returned = Inl (ErrorReport code message), connectionEvents = []\<rparr>"
proof (cases rsinfo)
  case None
  with assms(1) show ?thesis
    by (simp add: master_run_on_worker_def)
next
  case (Some rs)
  show ?thesis
  proof (cases "allowedModes rs AND SFRM_Materialize = 0")
    case True
    with Some assms(1) show ?thesis
      by (simp add: master_run_on_worker_def)
  next
    case allowed: False
    show ?thesis
    proof (cases "length names \<noteq> length ports \<or> length names \<noteq> length commands")
      case True
      then have "ParseCommandParameters names ports commands parallel =
          Inl (ErrorReport ERRCODE_SYNTAX_ERROR
                 ''expected same number of node name, port, and query string'')"
        by (simp add: ParseCommandParameters_def Let_def)
      with Some allowed assms(1) show ?thesis
        by (simp add: master_run_on_worker_def)
    next
      case False
      then have lens: "length ports = length names" "length commands = length names"
        by simp_all
      from False allowed Some assms(2)
      have "expectedDesc rs \<noteq> [TEXTOID, INT4OID, BOOLOID, TEXTOID]" by auto
      then have "length (expectedDesc rs) \<noteq> 4 \<or> expectedDesc rs ! 0 \<noteq> TEXTOID
          \<or> expectedDesc rs ! 1 \<noteq> INT4OID \<or> expectedDesc rs ! 2 \<noteq> BOOLOID
          \<or> expectedDesc rs ! 3 \<noteq> TEXTOID"
        using tuple_descriptor_check [of "expectedDesc rs" TEXTOID INT4OID BOOLOID TEXTOID]
        by blast
      with Some allowed assms(1) show ?thesis
        by (simp add: master_run_on_worker_def ParseCommandParameters_valid [OF lens] Let_def)
    qed
  qed
qed

lemma run_executor_raises:
  assumes "run_executor env fuel names ports commands parallel = Some (Some e, st)"
  shows "e = QueryCanceled"
proof (cases parallel)
  case True
  with assms obtain pst where
    "ExecuteCommandsInParallelAndStoreResults env fuel names ports commands
       (replicate (length names) False) (replicate (length names) []) (length names)
     = Some (Some e, pst)"
    by (auto simp: run_executor_def)
  from parallel_run_result [OF this] show ?thesis by auto
next
  case False
  with assms have
    "ExecuteCommandsAndStoreResults_from env names ports commands (length names) 0
       \<lparr>statusArray = replicate (length names) False,
        resultStringArray = replicate (length names) [], connectionLog = []\<rparr>
     = (Some e, st)"
    by (simp add: run_executor_def ExecuteCommandsAndStoreResults_def)
  from ExecuteCommandsAndStoreResults_from_result [OF this] show ?thesis by auto
qed

lemma structural_input_error_iff:
  "structural_input_error rsinfo names ports commands \<longleftrightarrow>
     rsinfo = None
     \<or> (\<exists>rs. rsinfo = Some rs
           \<and> (allowedModes rs AND SFRM_Materialize = 0
              \<or> expectedDesc rs \<noteq> [TEXTOID, INT4OID, BOOLOID, TEXTOID]))
     \<or> length names \<noteq> length ports \<or> length names \<noteq> length commands"
  by (auto simp: structural_input_error_def split: option.split)

text \<open>
  C5. Once the version check has passed, \<^verbatim>\<open>master_run_on_worker\<close> fails with an input
  validation error exactly in the structural cases: the three arrays differ in length,
  the caller does not allow a materialized result set, or the expected tuple descriptor
  is not (text, int4, bool, text). In these cases the call always ends with that
  error, gives no row and has opened no connection and sent no command; in every
  other case no outcome of the call is an input validation error.
\<close>

theorem master_run_on_worker_input_validation:
  assumes "citusVersionOk env"
  shows "(structural_input_error rsinfo nodeNames nodePorts commands \<longrightarrow>
            (\<exists>e. InputValidationError e
               \<and> master_run_on_worker env fuel rsinfo nodeNames nodePorts commands parallel =
                   Some \<lparr>returned = Inl e, connectionEvents = []\<rparr>))
       \<and> (\<not> structural_input_error rsinfo nodeNames nodePorts commands \<longrightarrow>
            (\<forall>out e. master_run_on_worker env fuel rsinfo nodeNames nodePorts commands parallel
                        = Some out
                      \<and> returned out = Inl e \<longrightarrow> \<not> InputValidationError e))"
proof (intro conjI impI allI)
  assume "structural_input_error rsinfo nodeNames nodePorts commands"
  then have "rsinfo = None
       \<or> (\<exists>rs. rsinfo = Some rs
             \<and> (allowedModes rs AND SFRM_Materialize = 0
                \<or> expectedDesc rs \<noteq> [TEXTOID, INT4OID, BOOLOID, TEXTOID]))
       \<or> length nodeNames \<noteq> length nodePorts \<or> length nodeNames \<noteq> length commands"
    by (simp only: structural_input_error_iff)
  from master_run_on_worker_invalid [OF assms this]
  obtain code message where
    "master_run_on_worker env fuel rsinfo nodeNames nodePorts commands parallel =
       Some \<lparr>returned = Inl (ErrorReport code message), connectionEvents = []\<rparr>"
    by blast
  moreover have "InputValidationError (ErrorReport code message)"
    by (simp add: InputValidationError_def)
  ultimately show "\<exists>e. InputValidationError e
      \<and> master_run_on_worker env fuel rsinfo nodeNames nodePorts commands parallel =
          Some \<lparr>returned = Inl e, connectionEvents = []\<rparr>"
    by blast
next
  fix out e
  assume valid: "\<not> structural_input_error rsinfo nodeNames nodePorts commands"
    and run: "master_run_on_worker env fuel rsinfo nodeNames nodePorts commands parallel = Some out
      \<and> returned out = Inl e"
  from valid obtain rs where rs: "rsinfo = Some rs"
      "allowedModes rs AND SFRM_Materialize \<noteq> 0"
      "expectedDesc rs = [TEXTOID, INT4OID, BOOLOID, TEXTOID]"
      "length nodePorts = length nodeNames" "length commands = length nodeNames"
    by (auto simp: structural_input_error_def split: option.splits)
  note unfold = master_run_on_worker_valid [OF assms rs, of fuel parallel]
  show "\<not> InputValidationError e"
  proof (cases "run_executor env fuel nodeNames nodePorts commands parallel")
    case None
    with unfold run show ?thesis by simp
  next
    case (Some res)
    obtain raised st where res: "res = (raised, st)" by (cases res)
    show ?thesis
    proof (cases raised)
      case None
      with unfold run Some res show ?thesis by auto
    next
      case (Some e')
      with \<open>run_executor env fuel nodeNames nodePorts commands parallel = Some res\<close> res
      have "run_executor env fuel nodeNames nodePorts commands parallel = Some (Some e', st)"
        by simp
      from run_executor_raises [OF this] have "e' = QueryCanceled" .
      with unfold run Some res
        \<open>run_executor env fuel nodeNames nodePorts commands parallel = Some res\<close>
      have "e = QueryCanceled" by auto
      then show ?thesis by (simp add: InputValidationError_def)
    qed
  qed
qed

text \<open>
  Two node names against three ports and three commands are rejected; a call with one
  of each is not rejected as invalid input.
\<close>

theorem master_run_on_worker_input_validation_witness:
  "citusVersionOk example_cluster
   \<and> structural_input_error (Some example_rsinfo) [''worker-a'', ''worker-b''] [5432, 5433, 5434]
        [''SELECT 1'', ''SELECT 2'', ''SELECT 3'']
   \<and> (\<exists>e. InputValidationError e
         \<and> master_run_on_worker example_cluster 3 (Some example_rsinfo)
              [''worker-a'', ''worker-b''] [5432, 5433, 5434]
              [''SELECT 1'', ''SELECT 2'', ''SELECT 3''] True
            = Some \<lparr>returned = Inl e, connectionEvents = []\<rparr>)
   \<and> \<not> structural_input_error (Some example_rsinfo) [''worker-a''] [5432] [''SELECT 1'']
   \<and> (case master_run_on_worker example_cluster 3 (Some example_rsinfo)
              [''worker-a''] [5432] [''SELECT 1''] False of
         None \<Rightarrow> True
       | Some out \<Rightarrow> (case returned out of Inl e \<Rightarrow> \<not> InputValidationError e | Inr rows \<Rightarrow> True))"
proof -
  have version: "citusVersionOk example_cluster"
    by (simp add: example_cluster_def)
  have bad: "structural_input_error (Some example_rsinfo) [''worker-a'', ''worker-b'']
      [5432, 5433, 5434] [''SELECT 1'', ''SELECT 2'', ''SELECT 3'']"
    by (simp add: structural_input_error_def)
  have good: "\<not> structural_input_error (Some example_rsinfo) [''worker-a''] [5432] [''SELECT 1'']"
    by (simp add: structural_input_error_def example_rsinfo_def SFRM_Materialize_def)
  note validation = master_run_on_worker_input_validation [OF version]
  have rejected: "\<exists>e. InputValidationError e
         \<and> master_run_on_worker example_cluster 3 (Some example_rsinfo)
              [''worker-a'', ''worker-b''] [5432, 5433, 5434]
              [''SELECT 1'', ''SELECT 2'', ''SELECT 3''] True
            = Some \<lparr>returned = Inl e, connectionEvents = []\<rparr>"
    using validation [THEN conjunct1] bad by (rule mp)
  have accepted: "\<forall>out e. master_run_on_worker example_cluster 3 (Some example_rsinfo)
              [''worker-a''] [5432] [''SELECT 1''] False = Some out
            \<and> returned out = Inl e \<longrightarrow> \<not> InputValidationError e"
    using validation [THEN conjunct2] good by (rule mp)
  have "case master_run_on_worker example_cluster 3 (Some example_rsinfo)
              [''worker-a''] [5432] [''SELECT 1''] False of
         None \<Rightarrow> True
       | Some out \<Rightarrow> (case returned out of Inl e \<Rightarrow> \<not> InputValidationError e | Inr rows \<Rightarrow> True)"
    using accepted by (auto split: option.split sum.split)
  with version bad rejected good show ?thesis
    by (intro conjI)
qed

lemma CreateTupleStore_length [simp]:
  "length (CreateTupleStore names ports statuses results n) = n"
  by (simp add: CreateTupleStore_def)

lemma CreateTupleStore_nth:
  "i < n \<Longrightarrow> CreateTupleStore names ports statuses results n ! i =
     \<lparr>rowNodeName = names ! i, rowNodePort = ports ! i, rowSuccess = statuses ! i,
      rowResult = results ! i\<rparr>"
  by (simp add: CreateTupleStore_def)

lemma sequential_run_result:
  assumes "ExecuteCommandsAndStoreResults env names ports commands
             (replicate n False) (replicate n []) n = (raised, st')"
  shows "\<exists>m\<le>n. length (statusArray st') = n \<and> length (resultStringArray st') = n
           \<and> (\<forall>j<n. outcome_of st' j =
                 (if j < m then sequential_slot env names ports commands j (False, [], [])
                  else (False, [], [])))
           \<and> (raised = None \<longrightarrow> m = n)
           \<and> (raised \<noteq> None \<longrightarrow>
                raised = Some QueryCanceled \<and> 0 < m
                \<and> (waitInterrupted (network env (m - 1)) \<or> interruptPending env (m - 1)))"
proof -
  let ?st0 = "\<lparr>statusArray = replicate n False, resultStringArray = replicate n [],
               connectionLog = []\<rparr>"
  from assms have "ExecuteCommandsAndStoreResults_from env names ports commands n 0 ?st0 =
      (raised, st')"
    by (simp add: ExecuteCommandsAndStoreResults_def)
  from ExecuteCommandsAndStoreResults_from_result [OF this]
  obtain m where m: "m \<le> n" "length (statusArray st') = n" "length (resultStringArray st') = n"
    "\<forall>j<n. outcome_of st' j =
        (if 0 \<le> j \<and> j < m then sequential_slot env names ports commands j (outcome_of ?st0 j)
         else outcome_of ?st0 j)"
    "raised = None \<longrightarrow> m = n"
    "raised \<noteq> None \<longrightarrow> raised = Some QueryCanceled \<and> 0 < m
       \<and> (waitInterrupted (network env (m - 1)) \<or> interruptPending env (m - 1))"
    by auto
  have "\<forall>j<n. outcome_of ?st0 j = (False, [], [])"
    by (simp add: outcome_of_def)
  with m(4) have "\<forall>j<n. outcome_of st' j =
      (if j < m then sequential_slot env names ports commands j (False, [], [])
       else (False, [], []))"
    by simp
  with m(1,2,3,5,6) show ?thesis
    by (intro exI [of _ m]) simp
qed

lemma run_executor_returns:
  assumes "commands_complete env fuel (length names) parallel"
  shows "\<exists>st. run_executor env fuel names ports commands parallel = Some (None, st)"
proof (cases parallel)
  case True
  with assms have calm: "\<forall>k. \<not> interruptPending env k"
    and answered: "\<forall>j<length names. establishedStatus (network env j) = CONNECTION_OK
          \<and> querySent (network env j) \<noteq> 0 \<longrightarrow>
          (\<exists>k<fuel. queryFinishedAt (network env j) k)"
    by (simp_all add: commands_complete_def)
  from parallel_run_returns [OF _ _ calm answered, of "replicate (length names) False"
      "replicate (length names) []" names ports commands]
  obtain st' where "ExecuteCommandsInParallelAndStoreResults env fuel names ports commands
      (replicate (length names) False) (replicate (length names) []) (length names)
    = Some (None, st')"
    by auto
  with True show ?thesis
    by (simp add: run_executor_def)
next
  case False
  with assms have calm: "\<forall>k. \<not> interruptPending env k"
    and waits: "\<forall>i<length names. \<not> waitInterrupted (network env i)"
    by (simp_all add: commands_complete_def)
  obtain raised st' where run: "ExecuteCommandsAndStoreResults env names ports commands
      (replicate (length names) False) (replicate (length names) []) (length names)
    = (raised, st')"
    by (cases "ExecuteCommandsAndStoreResults env names ports commands
      (replicate (length names) False) (replicate (length names) []) (length names)") auto
  from sequential_run_result [OF this]
  obtain m where m: "m \<le> length names"
    "raised \<noteq> None \<longrightarrow> 0 < m
       \<and> (waitInterrupted (network env (m - 1)) \<or> interruptPending env (m - 1))"
    by auto
  have "raised = None"
  proof (rule ccontr)
    assume "raised \<noteq> None"
    with m have "0 < m" "waitInterrupted (network env (m - 1)) \<or> interruptPending env (m - 1)"
      by simp_all
    moreover from \<open>0 < m\<close> m(1) have "m - 1 < length names" by simp
    ultimately show False using calm waits by blast
  qed
  with run False show ?thesis
    by (simp add: run_executor_def)
qed

text \<open>
  C1. For a valid call with \<open>K\<close> node names, ports and commands, whenever
  \<^verbatim>\<open>master_run_on_worker\<close> returns rows it returns exactly \<open>K\<close> of them, and row
  \<open>i\<close> carries the node name and port of input \<open>i\<close>, with \<open>parallel\<close> true or false
  and whatever the connections answer and in whatever order they finish. The call does
  return rows when no cancellation is pending and every command completes (in the
  parallel executor, within the sweeps allowed).
\<close>

theorem master_run_on_worker_rows_in_input_order:
  assumes "citusVersionOk env" and "rsinfo = Some rs"
    and "allowedModes rs AND SFRM_Materialize \<noteq> 0"
    and "expectedDesc rs = [TEXTOID, INT4OID, BOOLOID, TEXTOID]"
    and "length nodeNames = K" and "length nodePorts = K" and "length commands = K"
  shows "(\<forall>out rows.
            master_run_on_worker env fuel rsinfo nodeNames nodePorts commands parallel = Some out
            \<and> returned out = Inr rows \<longrightarrow>
            length rows = K
            \<and> (\<forall>i<K. rowNodeName (rows ! i) = nodeNames ! i
                    \<and> rowNodePort (rows ! i) = nodePorts ! i))
       \<and> (commands_complete env fuel K parallel \<longrightarrow>
            (\<exists>rows events.
               master_run_on_worker env fuel rsinfo nodeNames nodePorts commands parallel =
                 Some \<lparr>returned = Inr rows, connectionEvents = events\<rparr>))"
proof -
  have lens: "length nodePorts = length nodeNames" "length commands = length nodeNames"
    using assms(5-7) by simp_all
  note unfold = master_run_on_worker_valid [OF assms(1-4) lens, of fuel parallel]
  have rows: "length rows = K
      \<and> (\<forall>i<K. rowNodeName (rows ! i) = nodeNames ! i \<and> rowNodePort (rows ! i) = nodePorts ! i)"
    if run: "master_run_on_worker env fuel rsinfo nodeNames nodePorts commands parallel = Some out"
      and out: "returned out = Inr rows" for out rows
  proof (cases "run_executor env fuel nodeNames nodePorts commands parallel")
    case None
    with unfold run show ?thesis by simp
  next
    case (Some res)
    obtain raised st where res: "res = (raised, st)" by (cases res)
    show ?thesis
    proof (cases raised)
      case None
      with unfold run out Some res
      have "rows = CreateTupleStore nodeNames nodePorts (statusArray st) (resultStringArray st) K"
        using assms(5) by auto
      then show ?thesis
        by (simp add: CreateTupleStore_nth)
    next
      case (Some e)
      with unfold run out res
        \<open>run_executor env fuel nodeNames nodePorts commands parallel = Some res\<close>
      show ?thesis by auto
    qed
  qed
  have returns: "\<exists>rows events.
      master_run_on_worker env fuel rsinfo nodeNames nodePorts commands parallel =
        Some \<lparr>returned = Inr rows, connectionEvents = events\<rparr>"
    if "commands_complete env fuel K parallel"
  proof -
    from that assms(5) have "commands_complete env fuel (length nodeNames) parallel" by simp
    from run_executor_returns [OF this, of nodePorts commands]
    obtain st where "run_executor env fuel nodeNames nodePorts commands parallel = Some (None, st)"
      by blast
    with unfold show ?thesis by simp
  qed
  from rows returns show ?thesis by blast
qed

lemma example_cluster_complete:
  "commands_complete example_cluster 3 n parallel"
proof -
  have "queryFinishedAt example_pgconn 2"
    by (simp add: queryFinishedAt_def example_pgconn_def)
  then have "\<exists>k<3. queryFinishedAt example_pgconn k"
    by (intro exI [of _ 2]) simp
  moreover have "\<not> waitInterrupted example_pgconn"
    by (simp add: waitInterrupted_def example_pgconn_def)
  ultimately show ?thesis
    by (simp add: commands_complete_def example_cluster_def)
qed

text \<open>
  Two commands on the example connections, which answer at the third sweep: both
  executors return two rows, in input order.
\<close>

theorem master_run_on_worker_rows_in_input_order_witness:
  "commands_complete example_cluster 3 2 True
   \<and> commands_complete example_cluster 3 2 False
   \<and> (\<exists>rows events.
         master_run_on_worker example_cluster 3 (Some example_rsinfo)
           [''worker-a'', ''worker-b''] [5432, 5433] [''SELECT 1'', ''SELECT 2''] True
         = Some \<lparr>returned = Inr rows, connectionEvents = events\<rparr>
         \<and> length rows = 2
         \<and> rowNodeName (rows ! 0) = ''worker-a'' \<and> rowNodePort (rows ! 0) = 5432
         \<and> rowNodeName (rows ! 1) = ''worker-b'' \<and> rowNodePort (rows ! 1) = 5433)
   \<and> (\<exists>rows events.
         master_run_on_worker example_cluster 3 (Some example_rsinfo)
           [''worker-a'', ''worker-b''] [5432, 5433] [''SELECT 1'', ''SELECT 2''] False
         = Some \<lparr>returned = Inr rows, connectionEvents = events\<rparr>
         \<and> length rows = 2
         \<and> rowNodeName (rows ! 0) = ''worker-a'' \<and> rowNodePort (rows ! 0) = 5432
         \<and> rowNodeName (rows ! 1) = ''worker-b'' \<and> rowNodePort (rows ! 1) = 5433)"
proof -
  have version: "citusVersionOk example_cluster"
    by (simp add: example_cluster_def)
  have allowed: "allowedModes example_rsinfo AND SFRM_Materialize \<noteq> 0"
    by (simp add: example_rsinfo_def SFRM_Materialize_def)
  have shape: "expectedDesc example_rsinfo = [TEXTOID, INT4OID, BOOLOID, TEXTOID]"
    by (simp add: example_rsinfo_def)
  have lens: "length [''worker-a'', ''worker-b''] = 2" "length [5432, 5433 :: 32 word] = 2"
    "length [''SELECT 1'', ''SELECT 2''] = 2"
    by simp_all
  note rows = master_run_on_worker_rows_in_input_order [OF version refl allowed shape lens]
  have one: "\<exists>rows events.
         master_run_on_worker example_cluster 3 (Some example_rsinfo)
           [''worker-a'', ''worker-b''] [5432, 5433] [''SELECT 1'', ''SELECT 2''] parallel
         = Some \<lparr>returned = Inr rows, connectionEvents = events\<rparr>
         \<and> length rows = 2
         \<and> rowNodeName (rows ! 0) = ''worker-a'' \<and> rowNodePort (rows ! 0) = 5432
         \<and> rowNodeName (rows ! 1) = ''worker-b'' \<and> rowNodePort (rows ! 1) = 5433" for parallel
  proof -
    from rows [of 3 parallel, THEN conjunct2] example_cluster_complete [of 2 parallel]
    obtain rows events where run:
      "master_run_on_worker example_cluster 3 (Some example_rsinfo)
           [''worker-a'', ''worker-b''] [5432, 5433] [''SELECT 1'', ''SELECT 2''] parallel
         = Some \<lparr>returned = Inr rows, connectionEvents = events\<rparr>"
      by blast
    with rows [of 3 parallel, THEN conjunct1]
    have "length rows = 2
      \<and> (\<forall>i<2. rowNodeName (rows ! i) = [''worker-a'', ''worker-b''] ! i
              \<and> rowNodePort (rows ! i) = [5432, 5433] ! i)"
      by simp
    then have "length rows = 2
         \<and> rowNodeName (rows ! 0) = ''worker-a'' \<and> rowNodePort (rows ! 0) = 5432
         \<and> rowNodeName (rows ! 1) = ''worker-b'' \<and> rowNodePort (rows ! 1) = 5433"
      by (simp add: eval_nat_numeral All_less_Suc)
    with run show ?thesis by blast
  qed
  from example_cluster_complete [of 2 True] example_cluster_complete [of 2 False]
    one [of True] one [of False]
  show ?thesis by (intro conjI)
qed

subsection \<open>Isolation of failures and the life of connections\<close>










lemma polled_slot_fields:
  "polled_slot j sweep (Some c, s, r, ev) = (c', s', r', ev') \<Longrightarrow>
     (c' = None \<and> ev' = ev @ [ConnectionClosed j]) \<or> (c' = Some c \<and> ev' = ev)"
  by (auto simp: polled_slot_def split: prod.splits if_splits)

lemma fold_polled_slot_events:
  "fold (polled_slot j) sweeps (Some c, s, r, ev) = (c', s', r', ev') \<Longrightarrow>
     (c' = None \<and> ev' = ev @ [ConnectionClosed j]) \<or> (c' = Some c \<and> ev' = ev)"
proof (induction sweeps arbitrary: s r)
  case Nil
  then show ?case by simp
next
  case (Cons k sweeps)
  obtain c1 s1 r1 ev1 where step: "polled_slot j k (Some c, s, r, ev) = (c1, s1, r1, ev1)"
    by (cases "polled_slot j k (Some c, s, r, ev)")
  from polled_slot_fields [OF step]
  show ?case
  proof
    assume "c1 = None \<and> ev1 = ev @ [ConnectionClosed j]"
    with Cons.prems step show ?thesis by simp
  next
    assume "c1 = Some c \<and> ev1 = ev"
    with Cons.prems step Cons.IH [of s1 r1] show ?thesis by simp
  qed
qed

lemma truncate_fields [simp]:
  "statusArray (executor_state.truncate st) = statusArray st"
  "resultStringArray (executor_state.truncate st) = resultStringArray st"
  "connectionLog (executor_state.truncate st) = connectionLog st"
  by (simp_all add: executor_state.truncate_def)






lemma one_down_cluster_complete: "commands_complete one_down_cluster 3 n parallel"
proof -
  have "queryFinishedAt example_pgconn 2"
    by (simp add: queryFinishedAt_def example_pgconn_def)
  then have "\<exists>k<3. queryFinishedAt example_pgconn k"
    by (intro exI [of _ 2]) simp
  moreover have "\<not> waitInterrupted example_pgconn"
    by (simp add: waitInterrupted_def example_pgconn_def)
  ultimately show ?thesis
    by (simp add: commands_complete_def one_down_cluster_def example_cluster_def
          waitInterrupted_def)
qed


lemma connection_failure_text_simps [simp]:
  "\<not> connection_failure_text []"
  "\<not> connection_failure_text ''connection lost''"
  "\<not> connection_failure_text ''query result unavailable''"
  "\<not> connection_failure_text ''expected a single column in query target''"
  "\<not> connection_failure_text ''expected a single row in query result''"
  "\<not> connection_failure_text ''An error occurred while running the query''"
  "\<not> connection_failure_text (''failed to send query to '' @ r)"
  "connection_failure_text (''failed to connect to '' @ r)"
  by (simp_all add: connection_failure_text_def)











lemma count_events_of:
  "event_connection e = j \<Longrightarrow> count_list (events_of j events) e = count_list events e"
  by (induction events) (auto simp: events_of_Cons)

lemma parallel_events:
  assumes run: "ExecuteCommandsInParallelAndStoreResults env fuel names ports commands
        (replicate n False) (replicate n []) n = Some (raised, st)"
    and j: "j < n"
  shows "events_of j (connectionLog st) =
           (if establishedStatus (network env j) \<noteq> CONNECTION_OK then
              [ConnectionOpened j FORCE_NEW_CONNECTION (names ! j) (ports ! j)]
            else if connectionArray st ! j = None then
              [ConnectionOpened j FORCE_NEW_CONNECTION (names ! j) (ports ! j),
               CommandSent j (commands ! j), ConnectionClosed j]
            else
              [ConnectionOpened j FORCE_NEW_CONNECTION (names ! j) (ports ! j),
               CommandSent j (commands ! j)])
       \<and> (establishedStatus (network env j) \<noteq> CONNECTION_OK \<or> querySent (network env j) = 0
            \<longrightarrow> connectionArray st ! j = None)
       \<and> (raised = None \<longrightarrow> connectionArray st ! j = None)"
proof -
  let ?sl = "connected_slot env names ports commands j (None, False, [], [])"
  from parallel_run_result [OF run] j
  obtain m where m: "slot_of st j = fold (polled_slot j) [0..<m] ?sl"
    "raised = None \<longrightarrow> fst (slot_of st j) = None"
    by auto
  have closed: "raised = None \<longrightarrow> connectionArray st ! j = None"
    using m(2) by (simp add: slot_of_def)
  show ?thesis
  proof (cases "establishedStatus (network env j) \<noteq> CONNECTION_OK")
    case True
    then have "?sl = (None, False,
        ''failed to connect to '' @ names ! j @ '':'' @ format_d (sint (ports ! j)),
        [ConnectionOpened j FORCE_NEW_CONNECTION (names ! j) (ports ! j)])"
      by (simp add: connected_slot_cases Let_def)
    with m(1) True closed show ?thesis
      by (simp add: slot_of_def)
  next
    case False
    show ?thesis
    proof (cases "querySent (network env j) = 0")
      case True
      with False have "fst ?sl = None"
        "snd (snd (snd ?sl)) = [ConnectionOpened j FORCE_NEW_CONNECTION (names ! j) (ports ! j),
            CommandSent j (commands ! j), ConnectionClosed j]"
        by (simp_all add: connected_slot_cases Let_def)
      then obtain s r where "?sl = (None, s, r,
          [ConnectionOpened j FORCE_NEW_CONNECTION (names ! j) (ports ! j),
            CommandSent j (commands ! j), ConnectionClosed j])"
        by (cases ?sl) auto
      with m(1) False closed show ?thesis
        by (simp add: slot_of_def)
    next
      case sent: False
      with False have open_slot: "?sl =
          (Some (StartNodeConnection env j FORCE_NEW_CONNECTION (names ! j) (ports ! j)), True, [],
           [ConnectionOpened j FORCE_NEW_CONNECTION (names ! j) (ports ! j),
            CommandSent j (commands ! j)])"
        by (simp add: connected_slot_cases Let_def)
      obtain c' s' r' ev' where final: "fold (polled_slot j) [0..<m] ?sl = (c', s', r', ev')"
        by (cases "fold (polled_slot j) [0..<m] ?sl")
      from fold_polled_slot_events [OF final [unfolded open_slot]] m(1) final False sent closed
      show ?thesis
        by (auto simp: slot_of_def)
    qed
  qed
qed

lemma sequential_slot_events:
  "snd (snd (sequential_slot env names ports commands j (s, r, []))) =
     (if establishedStatus (network env j) \<noteq> CONNECTION_OK then
        [ConnectionOpened j FORCE_NEW_CONNECTION (names ! j) (ports ! j)]
      else if querySent (network env j) = 0 \<or> remoteCommandResult (network env j) = None then
        [ConnectionOpened j FORCE_NEW_CONNECTION (names ! j) (ports ! j),
         CommandSent j (commands ! j)]
      else
        [ConnectionOpened j FORCE_NEW_CONNECTION (names ! j) (ports ! j),
         CommandSent j (commands ! j), ConnectionClosed j])"
  by (simp add: sequential_slot_def ExecuteRemoteQueryOrCommand_def Let_def
        GetNodeConnection_def StartNodeConnection_def split: option.split prod.split)

lemma sequential_not_interrupted:
  assumes "ExecuteCommandsAndStoreResults_from env names ports commands n k st = (None, st')"
    and "k \<le> j" and "j < n"
  shows "\<not> waitInterrupted (network env j)"
  using assms
proof (induction "n - k" arbitrary: k st)
  case 0
  then show ?case by simp
next
  case (Suc d)
  then have k: "k < n" by simp
  obtain succ r' events where E:
    "ExecuteRemoteQueryOrCommand env k (names ! k) (ports ! k) (commands ! k)
       (resultStringArray st ! k) = (succ, r', events)"
    by (cases "ExecuteRemoteQueryOrCommand env k (names ! k) (ports ! k) (commands ! k)
       (resultStringArray st ! k)") auto
  show ?case
  proof (cases succ)
    case (Inl e)
    with E k Suc.prems(1) show ?thesis
      by (simp add: ExecuteCommandsAndStoreResults_from.simps [of env names ports commands n k st])
  next
    case (Inr ok)
    from Inr E ExecuteRemoteQueryOrCommand_raises [of env k "names ! k" "ports ! k" "commands ! k"
        "resultStringArray st ! k" QueryCanceled]
    have here: "\<not> waitInterrupted (network env k)" by auto
    let ?st2 = "st\<lparr>resultStringArray := (resultStringArray st)[k := r'],
                 connectionLog := connectionLog st @ events,
                 statusArray := (statusArray st)[k := ok]\<rparr>"
    from E Inr k Suc.prems(1)
    have rest: "ExecuteCommandsAndStoreResults_from env names ports commands n (Suc k) ?st2 =
        (None, st')"
      by (simp add: ExecuteCommandsAndStoreResults_from.simps [of env names ports commands n k st]
            Let_def split: if_splits)
    show ?thesis
    proof (cases "j = k")
      case True
      with here show ?thesis by simp
    next
      case False
      with Suc.prems(2) have "Suc k \<le> j" by simp
      moreover have "d = n - Suc k" using Suc.hyps(2) by simp
      ultimately show ?thesis
        using Suc.hyps(1) [OF _ rest _ Suc.prems(3)] by simp
    qed
  qed
qed

lemma sequential_events:
  assumes run: "ExecuteCommandsAndStoreResults env names ports commands
        (replicate n False) (replicate n []) n = (raised, st)"
    and j: "j < n"
  shows "\<exists>m\<le>n. (raised = None \<longrightarrow> m = n \<and> \<not> waitInterrupted (network env j))
           \<and> events_of j (connectionLog st) =
               (if j < m then
                  (if establishedStatus (network env j) \<noteq> CONNECTION_OK then
                     [ConnectionOpened j FORCE_NEW_CONNECTION (names ! j) (ports ! j)]
                   else if querySent (network env j) = 0
                           \<or> remoteCommandResult (network env j) = None then
                     [ConnectionOpened j FORCE_NEW_CONNECTION (names ! j) (ports ! j),
                      CommandSent j (commands ! j)]
                   else
                     [ConnectionOpened j FORCE_NEW_CONNECTION (names ! j) (ports ! j),
                      CommandSent j (commands ! j), ConnectionClosed j])
                else [])"
proof -
  from sequential_run_result [OF run] j
  obtain m where m: "m \<le> n" "raised = None \<longrightarrow> m = n"
    "outcome_of st j = (if j < m then sequential_slot env names ports commands j (False, [], [])
                        else (False, [], []))"
    by auto
  have calm: "\<not> waitInterrupted (network env j)" if "raised = None"
  proof -
    from run that have "ExecuteCommandsAndStoreResults_from env names ports commands n 0
        \<lparr>statusArray = replicate n False, resultStringArray = replicate n [],
         connectionLog = []\<rparr> = (None, st)"
      by (simp add: ExecuteCommandsAndStoreResults_def)
    from sequential_not_interrupted [OF this _ j] show ?thesis by simp
  qed
  have "events_of j (connectionLog st) = snd (snd (outcome_of st j))"
    by (simp add: outcome_of_def)
  with m(3) have "events_of j (connectionLog st) =
      (if j < m then snd (snd (sequential_slot env names ports commands j (False, [], [])))
       else [])"
    by simp
  with m(1,2) calm show ?thesis
    by (intro exI [of _ m]) (simp add: sequential_slot_events)
qed

text \<open>
  C7, as stated, fails. A parallel run of one command that is cancelled at the end of
  the first sweep, while the connection is busy, ends with the cancellation raised,
  the connection still held in \<open>connectionArray\<close> and no close in the log.
\<close>

theorem cancelled_poll_loop_leaves_connection_open:
  "ExecuteCommandsInParallelAndStoreResults cancelling_cluster 3 [''worker-a''] [5432]
       [''SELECT 1''] [False] [[]] 1
     = Some (Some QueryCanceled,
             \<lparr>statusArray = [True], resultStringArray = [[]],
              connectionLog = [ConnectionOpened 0 FORCE_NEW_CONNECTION ''worker-a'' 5432,
                               CommandSent 0 ''SELECT 1''],
              connectionArray = [Some (StartNodeConnection cancelling_cluster 0
                                         FORCE_NEW_CONNECTION ''worker-a'' 5432)],
              finishedCount = 0\<rparr>)"
proof -
  have conn: "network cancelling_cluster 0 = example_pgconn"
    and intr: "interruptPending cancelling_cluster 0"
    by (simp_all add: cancelling_cluster_def example_cluster_def)
  have fields: "establishedStatus example_pgconn = CONNECTION_OK" "querySent example_pgconn = 1"
    "pollStatus example_pgconn 0 = CONNECTION_OK" "consumeInput example_pgconn 0 = 1"
    "isBusy example_pgconn 0 = 1"
    by (simp_all add: example_pgconn_def)
  show ?thesis
    by (simp add: ExecuteCommandsInParallelAndStoreResults_def start_connection_def
          establish_connection_def send_query_def check_query_result_def
          GetConnectionStatusAndResult_def StartNodeConnection_def conn intr fields
          eval_nat_numeral Let_def)
qed

text \<open>
  C7, amended. No connection is closed more than once, in either executor and on
  every exit, a cancellation included. In a run that ends without a cancellation the
  parallel executor has closed exactly once every connection it established (also
  one whose send failed), and the sequential executor has closed exactly once every
  connection that was established and took its command. A cancellation closes
  nothing: the connections still held in \<open>connectionArray\<close> when the parallel executor
  is left have not been closed, nor has a connection of the sequential executor whose
  wait for the result was cancelled.
\<close>

theorem connections_closed_at_most_once:
  "(\<forall>raised st j.
      ExecuteCommandsInParallelAndStoreResults env fuel names ports commands
        (replicate n False) (replicate n []) n = Some (raised, st) \<and> j < n \<longrightarrow>
      count_list (connectionLog st) (ConnectionClosed j) \<le> 1
      \<and> (raised = None \<and> establishedStatus (network env j) = CONNECTION_OK \<longrightarrow>
           count_list (connectionLog st) (ConnectionClosed j) = 1)
      \<and> (connectionArray st ! j \<noteq> None \<longrightarrow>
           count_list (connectionLog st) (ConnectionClosed j) = 0))
   \<and> (\<forall>raised st j.
      ExecuteCommandsAndStoreResults env names ports commands
        (replicate n False) (replicate n []) n = (raised, st) \<and> j < n \<longrightarrow>
      count_list (connectionLog st) (ConnectionClosed j) \<le> 1
      \<and> (raised = None \<and> establishedStatus (network env j) = CONNECTION_OK
             \<and> querySent (network env j) \<noteq> 0 \<longrightarrow>
           count_list (connectionLog st) (ConnectionClosed j) = 1)
      \<and> (waitInterrupted (network env j) \<longrightarrow>
           count_list (connectionLog st) (ConnectionClosed j) = 0))"
proof (intro conjI allI impI; elim conjE)
  fix raised :: "error option" and st :: parallel_state and j
  assume run: "ExecuteCommandsInParallelAndStoreResults env fuel names ports commands
        (replicate n False) (replicate n []) n = Some (raised, st)" and j: "j < n"
  note ev = parallel_events [OF run j]
  have cnt: "count_list (connectionLog st) (ConnectionClosed j) =
      count_list (events_of j (connectionLog st)) (ConnectionClosed j)"
    by (simp add: count_events_of)
  show "count_list (connectionLog st) (ConnectionClosed j) \<le> 1"
    unfolding cnt using ev by (simp split: if_splits)
  show "count_list (connectionLog st) (ConnectionClosed j) = 1"
    if "raised = None" "establishedStatus (network env j) = CONNECTION_OK"
    unfolding cnt using ev that by (simp split: if_splits)
  show "count_list (connectionLog st) (ConnectionClosed j) = 0"
    if "connectionArray st ! j \<noteq> None"
    unfolding cnt using ev that by (auto split: if_splits)
next
  fix raised :: "error option" and st :: executor_state and j
  assume run: "ExecuteCommandsAndStoreResults env names ports commands
        (replicate n False) (replicate n []) n = (raised, st)" and j: "j < n"
  from sequential_events [OF run j]
  obtain m where m: "m \<le> n" "raised = None \<longrightarrow> m = n \<and> \<not> waitInterrupted (network env j)"
    "events_of j (connectionLog st) =
       (if j < m then
          (if establishedStatus (network env j) \<noteq> CONNECTION_OK then
             [ConnectionOpened j FORCE_NEW_CONNECTION (names ! j) (ports ! j)]
           else if querySent (network env j) = 0
                   \<or> remoteCommandResult (network env j) = None then
             [ConnectionOpened j FORCE_NEW_CONNECTION (names ! j) (ports ! j),
              CommandSent j (commands ! j)]
           else
             [ConnectionOpened j FORCE_NEW_CONNECTION (names ! j) (ports ! j),
              CommandSent j (commands ! j), ConnectionClosed j])
        else [])"
    by blast
  have cnt: "count_list (connectionLog st) (ConnectionClosed j) =
      count_list (events_of j (connectionLog st)) (ConnectionClosed j)"
    by (simp add: count_events_of)
  show "count_list (connectionLog st) (ConnectionClosed j) \<le> 1"
    unfolding cnt m(3) by simp
  show "count_list (connectionLog st) (ConnectionClosed j) = 1"
    if "raised = None" "establishedStatus (network env j) = CONNECTION_OK"
      "querySent (network env j) \<noteq> 0"
    unfolding cnt m(3) using that m(2) j by (simp add: waitInterrupted_def)
  show "count_list (connectionLog st) (ConnectionClosed j) = 0"
    if "waitInterrupted (network env j)"
    unfolding cnt m(3) using that by (simp add: waitInterrupted_def)
qed

lemma parallel_returns_complete:
  assumes "commands_complete env fuel n True"
  shows "\<exists>st. ExecuteCommandsInParallelAndStoreResults env fuel names ports commands
           (replicate n False) (replicate n []) n = Some (None, st)"
proof -
  from assms have calm: "\<forall>k. \<not> interruptPending env k"
    and answered: "\<forall>j<n. establishedStatus (network env j) = CONNECTION_OK
          \<and> querySent (network env j) \<noteq> 0 \<longrightarrow>
          (\<exists>k<fuel. queryFinishedAt (network env j) k)"
    by (simp_all add: commands_complete_def)
  from parallel_run_returns [OF _ _ calm answered, of "replicate n False" "replicate n []"
      names ports commands]
  show ?thesis by simp
qed

lemma sequential_returns_complete:
  assumes "commands_complete env fuel n False"
  shows "\<exists>st. ExecuteCommandsAndStoreResults env names ports commands
           (replicate n False) (replicate n []) n = (None, st)"
proof -
  from assms have calm: "\<forall>k. \<not> interruptPending env k"
    and waits: "\<forall>i<n. \<not> waitInterrupted (network env i)"
    by (simp_all add: commands_complete_def)
  obtain raised st' where run: "ExecuteCommandsAndStoreResults env names ports commands
      (replicate n False) (replicate n []) n = (raised, st')"
    by (cases "ExecuteCommandsAndStoreResults env names ports commands
      (replicate n False) (replicate n []) n") auto
  from sequential_run_result [OF this]
  obtain m where m: "m \<le> n"
    "raised \<noteq> None \<longrightarrow> 0 < m
       \<and> (waitInterrupted (network env (m - 1)) \<or> interruptPending env (m - 1))"
    by auto
  have "raised = None"
  proof (rule ccontr)
    assume "raised \<noteq> None"
    with m have "0 < m" "waitInterrupted (network env (m - 1)) \<or> interruptPending env (m - 1)"
      by simp_all
    moreover from \<open>0 < m\<close> m(1) have "m - 1 < n" by simp
    ultimately show False using calm waits by blast
  qed
  with run show ?thesis by simp
qed

text \<open>
  Three commands with the second target unreachable, run to the end by each executor:
  the first connection is closed once, and the second not more than once.
\<close>

theorem connections_closed_at_most_once_witness:
  "(\<exists>st. ExecuteCommandsInParallelAndStoreResults one_down_cluster 3
           [''worker-a'', ''worker-b'', ''worker-c''] [5432, 5433, 5434]
           [''SELECT 1'', ''SELECT 2'', ''SELECT 3''] (replicate 3 False) (replicate 3 []) 3
         = Some (None, st)
         \<and> count_list (connectionLog st) (ConnectionClosed 0) = 1
         \<and> count_list (connectionLog st) (ConnectionClosed 1) \<le> 1)
   \<and> (\<exists>st. ExecuteCommandsAndStoreResults one_down_cluster
           [''worker-a'', ''worker-b'', ''worker-c''] [5432, 5433, 5434]
           [''SELECT 1'', ''SELECT 2'', ''SELECT 3''] (replicate 3 False) (replicate 3 []) 3
         = (None, st)
         \<and> count_list (connectionLog st) (ConnectionClosed 0) = 1
         \<and> count_list (connectionLog st) (ConnectionClosed 1) \<le> 1)"
proof -
  let ?names = "[''worker-a'', ''worker-b'', ''worker-c'']"
  let ?ports = "[5432, 5433, 5434] :: 32 word list"
  let ?commands = "[''SELECT 1'', ''SELECT 2'', ''SELECT 3'']"
  have net: "establishedStatus (network one_down_cluster 0) = CONNECTION_OK"
    "querySent (network one_down_cluster 0) \<noteq> 0"
    by (simp_all add: one_down_cluster_def example_pgconn_def)
  note closes = connections_closed_at_most_once [of one_down_cluster 3 ?names ?ports ?commands 3]
  from parallel_returns_complete [OF one_down_cluster_complete [of 3 True],
      of ?names ?ports ?commands]
  obtain pst where par: "ExecuteCommandsInParallelAndStoreResults one_down_cluster 3
      ?names ?ports ?commands (replicate 3 False) (replicate 3 []) 3 = Some (None, pst)"
    by blast
  from closes [THEN conjunct1, rule_format, of None pst 0] par net
  have p0: "count_list (connectionLog pst) (ConnectionClosed 0) = 1" by simp
  from closes [THEN conjunct1, rule_format, of None pst 1] par
  have p1: "count_list (connectionLog pst) (ConnectionClosed 1) \<le> 1" by simp
  from sequential_returns_complete [OF one_down_cluster_complete [of 3 False],
      of ?names ?ports ?commands]
  obtain st where seq: "ExecuteCommandsAndStoreResults one_down_cluster
      ?names ?ports ?commands (replicate 3 False) (replicate 3 []) 3 = (None, st)"
    by blast
  from closes [THEN conjunct2, rule_format, of None st 0] seq net
  have s0: "count_list (connectionLog st) (ConnectionClosed 0) = 1" by simp
  from closes [THEN conjunct2, rule_format, of None st 1] seq
  have s1: "count_list (connectionLog st) (ConnectionClosed 1) \<le> 1" by simp
  from par p0 p1 seq s0 s1 show ?thesis by blast
qed

lemma opening_flags_append [simp]:
  "opening_flags (xs @ ys) = opening_flags xs @ opening_flags ys"
  by (induction xs rule: opening_flags.induct) simp_all

lemma fold_preserves:
  assumes "\<And>i st. f (body i st) = f st"
  shows "f (fold body xs st) = f st"
  by (induction xs arbitrary: st) (simp_all add: assms)

lemma start_phase_flags:
  "opening_flags (connectionLog (fold (start_connection env names ports) [0..<m] st)) =
     opening_flags (connectionLog st) @ replicate m FORCE_NEW_CONNECTION"
  by (induction m) (simp_all add: start_connection_def Let_def replicate_append_same)

lemma establish_connection_flags:
  "opening_flags (connectionLog (establish_connection names ports i st)) =
     opening_flags (connectionLog st)"
  by (simp add: establish_connection_def Let_def split: option.split)

lemma send_query_flags:
  "opening_flags (connectionLog (send_query commands i st)) = opening_flags (connectionLog st)"
  by (simp add: send_query_def Let_def split: option.split)

lemma check_query_result_flags:
  "opening_flags (connectionLog (check_query_result sweep i st)) =
     opening_flags (connectionLog st)"
  by (simp add: check_query_result_def Let_def split: option.split prod.split)

lemma poll_loop_flags:
  "poll_loop env n fuel sweep st = Some (raised, st') \<Longrightarrow>
   opening_flags (connectionLog st') = opening_flags (connectionLog st)"
proof (induction fuel arbitrary: sweep st)
  case 0
  then show ?case by (simp split: if_splits)
next
  case (Suc fuel)
  let ?st1 = "fold (check_query_result sweep) [0..<n] st"
  have sw: "opening_flags (connectionLog ?st1) = opening_flags (connectionLog st)"
    by (rule fold_preserves) (rule check_query_result_flags)
  show ?case
  proof (cases "finishedCount st < n")
    case False
    with Suc.prems show ?thesis by simp
  next
    case True
    show ?thesis
    proof (cases "interruptPending env sweep")
      case True
      with \<open>finishedCount st < n\<close> Suc.prems sw show ?thesis
        by (auto simp: Let_def)
    next
      case False
      with \<open>finishedCount st < n\<close> Suc.prems
      have "poll_loop env n fuel (Suc sweep) ?st1 = Some (raised, st')"
        by (simp add: Let_def)
      from Suc.IH [OF this] sw show ?thesis by simp
    qed
  qed
qed

lemma parallel_flags:
  assumes "ExecuteCommandsInParallelAndStoreResults env fuel names ports commands
        statusArray0 resultStringArray0 n = Some (raised, st)"
  shows "opening_flags (connectionLog st) = replicate n FORCE_NEW_CONNECTION"
proof -
  let ?st0 = "\<lparr>statusArray = statusArray0, resultStringArray = resultStringArray0,
              connectionLog = [], connectionArray = replicate n None,
              finishedCount = 0\<rparr> :: parallel_state"
  let ?st1 = "fold (start_connection env names ports) [0..<n] ?st0"
  let ?st2 = "fold (establish_connection names ports) [0..<n] ?st1"
  let ?st3 = "fold (send_query commands) [0..<n] ?st2"
  from assms have "poll_loop env n fuel 0 ?st3 = Some (raised, st)"
    by (simp add: ExecuteCommandsInParallelAndStoreResults_def Let_def)
  from poll_loop_flags [OF this]
  have "opening_flags (connectionLog st) = opening_flags (connectionLog ?st3)" .
  also have "\<dots> = opening_flags (connectionLog ?st2)"
    by (rule fold_preserves) (rule send_query_flags)
  also have "\<dots> = opening_flags (connectionLog ?st1)"
    by (rule fold_preserves) (rule establish_connection_flags)
  also have "\<dots> = replicate n FORCE_NEW_CONNECTION"
    by (simp add: start_phase_flags)
  finally show ?thesis .
qed

lemma ExecuteRemoteQueryOrCommand_flags:
  "opening_flags (snd (snd (ExecuteRemoteQueryOrCommand env j nodeName nodePort q r))) =
     [FORCE_NEW_CONNECTION]"
  by (simp add: ExecuteRemoteQueryOrCommand_def Let_def split: option.split prod.split)

lemma sequential_from_flags:
  assumes "ExecuteCommandsAndStoreResults_from env names ports commands n k st = (raised, st')"
    and "k \<le> n"
  shows "\<exists>m. k \<le> m \<and> m \<le> n \<and> (raised = None \<longrightarrow> m = n)
           \<and> opening_flags (connectionLog st') =
               opening_flags (connectionLog st) @ replicate (m - k) FORCE_NEW_CONNECTION"
  using assms
proof (induction "n - k" arbitrary: k st)
  case 0
  then have "k = n" by simp
  with "0.prems"(1) have "raised = None" "st' = st"
    by (simp_all add: ExecuteCommandsAndStoreResults_from.simps)
  with \<open>k = n\<close> show ?case
    by (intro exI [of _ n]) simp
next
  case (Suc d)
  then have k: "k < n" by simp
  obtain succ r' events where E:
    "ExecuteRemoteQueryOrCommand env k (names ! k) (ports ! k) (commands ! k)
       (resultStringArray st ! k) = (succ, r', events)"
    by (cases "ExecuteRemoteQueryOrCommand env k (names ! k) (ports ! k) (commands ! k)
       (resultStringArray st ! k)") auto
  from ExecuteRemoteQueryOrCommand_flags [of env k "names ! k" "ports ! k" "commands ! k"
      "resultStringArray st ! k"] E
  have ev: "opening_flags events = [FORCE_NEW_CONNECTION]" by simp
  let ?st1 = "st\<lparr>resultStringArray := (resultStringArray st)[k := r'],
                 connectionLog := connectionLog st @ events\<rparr>"
  show ?case
  proof (cases succ)
    case (Inl e)
    with E k Suc.prems(1) have res: "raised = Some e" "st' = ?st1"
      by (simp_all add: ExecuteCommandsAndStoreResults_from.simps [of env names ports commands n k st])
    with k ev show ?thesis
      by (intro exI [of _ "Suc k"]) simp
  next
    case (Inr ok)
    let ?st2 = "?st1\<lparr>statusArray := (statusArray ?st1)[k := ok]\<rparr>"
    show ?thesis
    proof (cases "interruptPending env k")
      case True
      with E Inr k Suc.prems(1) have res: "raised = Some QueryCanceled" "st' = ?st2"
        by (simp_all add: ExecuteCommandsAndStoreResults_from.simps [of env names ports commands n k st])
      with k ev show ?thesis
        by (intro exI [of _ "Suc k"]) simp
    next
      case False
      with E Inr k Suc.prems(1)
      have rest: "ExecuteCommandsAndStoreResults_from env names ports commands n (Suc k) ?st2 =
          (raised, st')"
        by (simp add: ExecuteCommandsAndStoreResults_from.simps [of env names ports commands n k st])
      have d: "d = n - Suc k" using Suc.hyps(2) by simp
      from Suc.hyps(1) [OF d rest] k
      obtain m where m: "Suc k \<le> m" "m \<le> n" "raised = None \<longrightarrow> m = n"
        "opening_flags (connectionLog st') =
           opening_flags (connectionLog ?st2) @ replicate (m - Suc k) FORCE_NEW_CONNECTION"
        by auto
      have "replicate (m - k) FORCE_NEW_CONNECTION =
          FORCE_NEW_CONNECTION # replicate (m - Suc k) FORCE_NEW_CONNECTION"
        using m(1) by (cases "m - k") (simp_all add: Suc_diff_Suc)
      with m ev show ?thesis
        by (intro exI [of _ m]) simp
    qed
  qed
qed

lemma sequential_flags:
  assumes "ExecuteCommandsAndStoreResults env names ports commands statusArray0
        resultStringArray0 n = (raised, st)"
  shows "\<exists>m\<le>n. (raised = None \<longrightarrow> m = n)
           \<and> opening_flags (connectionLog st) = replicate m FORCE_NEW_CONNECTION"
proof -
  from assms have "ExecuteCommandsAndStoreResults_from env names ports commands n 0
      \<lparr>statusArray = statusArray0, resultStringArray = resultStringArray0,
       connectionLog = []\<rparr> = (raised, st)"
    by (simp add: ExecuteCommandsAndStoreResults_def)
  from sequential_from_flags [OF this] show ?thesis by auto
qed

lemma check_sources_flags:
  "opening_flags (snd (check_sources env L k srcs)) = replicate (length srcs) 0"
  by (induction srcs arbitrary: k)
     (simp_all add: check_sources_Cons_snd del: check_sources.simps(2))

text \<open>
  C8, as stated, fails for the connectivity checks: the connections to the two source
  nodes of the example cluster are asked with connection flags 0, which is not
  \<^verbatim>\<open>FORCE_NEW_CONNECTION\<close>.
\<close>

theorem connectivity_checks_do_not_force_new_connection:
  "snd (StoreAllConnectivityChecks example_cluster) =
     [ConnectionOpened 0 0 ''worker-a'' 5432, ConnectionOpened 1 0 ''worker-b'' 5432]
   \<and> FORCE_NEW_CONNECTION \<noteq> 0"
proof -
  have sorted: "SortList [\<lparr>workerName = ''worker-b'', workerPort = 5432\<rparr>,
       \<lparr>workerName = ''worker-a'', workerPort = 5432\<rparr>] CompareWorkerNodes =
      [\<lparr>workerName = ''worker-a'', workerPort = 5432\<rparr>,
       \<lparr>workerName = ''worker-b'', workerPort = 5432\<rparr>]"
    by code_simp
  have nodes: "activeReadableNodeList example_cluster =
      [\<lparr>workerName = ''worker-b'', workerPort = 5432\<rparr>,
       \<lparr>workerName = ''worker-a'', workerPort = 5432\<rparr>]"
    by (simp add: example_cluster_def)
  have "snd (StoreAllConnectivityChecks example_cluster) =
     [ConnectionOpened 0 0 ''worker-a'' 5432, ConnectionOpened 1 0 ''worker-b'' 5432]"
    by (simp add: StoreAllConnectivityChecks_unfold nodes sorted check_sources_Cons_snd
          del: check_sources.simps(2))
  then show ?thesis
    by (simp add: FORCE_NEW_CONNECTION_def)
qed

text \<open>
  C8, amended. The parallel executor opens exactly one connection per command, the
  sequential executor one per command it reaches (all of them when it is not
  cancelled), and every one of these connections is asked with
  \<^verbatim>\<open>FORCE_NEW_CONNECTION\<close>. \<^verbatim>\<open>StoreAllConnectivityChecks\<close> opens one connection per
  source node, each asked with connection flags 0, that is, not forced new.
\<close>

theorem executors_open_forced_new_connections:
  "(\<forall>raised st.
      ExecuteCommandsInParallelAndStoreResults env fuel names ports commands
        (replicate n False) (replicate n []) n = Some (raised, st) \<longrightarrow>
      opening_flags (connectionLog st) = replicate n FORCE_NEW_CONNECTION
      \<and> (\<forall>j<n. opening_flags (events_of j (connectionLog st)) = [FORCE_NEW_CONNECTION]))
   \<and> (\<forall>raised st.
      ExecuteCommandsAndStoreResults env names ports commands
        (replicate n False) (replicate n []) n = (raised, st) \<longrightarrow>
      (\<exists>m\<le>n. (raised = None \<longrightarrow> m = n)
         \<and> opening_flags (connectionLog st) = replicate m FORCE_NEW_CONNECTION)
      \<and> (raised = None \<longrightarrow>
           (\<forall>j<n. opening_flags (events_of j (connectionLog st)) = [FORCE_NEW_CONNECTION])))
   \<and> opening_flags (snd (StoreAllConnectivityChecks env)) =
       replicate (length (activeReadableNodeList env)) 0"
proof (intro conjI allI impI)
  fix raised :: "error option" and st :: parallel_state
  assume run: "ExecuteCommandsInParallelAndStoreResults env fuel names ports commands
        (replicate n False) (replicate n []) n = Some (raised, st)"
  show "opening_flags (connectionLog st) = replicate n FORCE_NEW_CONNECTION"
    by (rule parallel_flags [OF run])
  fix j
  assume "j < n"
  from parallel_events [OF run this]
  show "opening_flags (events_of j (connectionLog st)) = [FORCE_NEW_CONNECTION]"
    by (simp split: if_splits)
next
  fix raised :: "error option" and st :: executor_state
  assume run: "ExecuteCommandsAndStoreResults env names ports commands
        (replicate n False) (replicate n []) n = (raised, st)"
  show "\<exists>m\<le>n. (raised = None \<longrightarrow> m = n)
         \<and> opening_flags (connectionLog st) = replicate m FORCE_NEW_CONNECTION"
    by (rule sequential_flags [OF run])
  fix j
  assume "raised = None" and j: "j < n"
  with sequential_events [OF run j]
  show "opening_flags (events_of j (connectionLog st)) = [FORCE_NEW_CONNECTION]"
    by (auto split: if_splits)
next
  show "opening_flags (snd (StoreAllConnectivityChecks env)) =
       replicate (length (activeReadableNodeList env)) 0"
    by (simp add: StoreAllConnectivityChecks_unfold check_sources_flags length_SortList)
qed

text \<open>Three commands run to the end by each executor: three forced-new openings.\<close>

theorem executors_open_forced_new_connections_witness:
  "(\<exists>st. ExecuteCommandsInParallelAndStoreResults one_down_cluster 3
           [''worker-a'', ''worker-b'', ''worker-c''] [5432, 5433, 5434]
           [''SELECT 1'', ''SELECT 2'', ''SELECT 3''] (replicate 3 False) (replicate 3 []) 3
         = Some (None, st)
         \<and> opening_flags (connectionLog st) = replicate 3 FORCE_NEW_CONNECTION)
   \<and> (\<exists>st. ExecuteCommandsAndStoreResults one_down_cluster
           [''worker-a'', ''worker-b'', ''worker-c''] [5432, 5433, 5434]
           [''SELECT 1'', ''SELECT 2'', ''SELECT 3''] (replicate 3 False) (replicate 3 []) 3
         = (None, st)
         \<and> opening_flags (connectionLog st) = replicate 3 FORCE_NEW_CONNECTION)"
proof -
  let ?names = "[''worker-a'', ''worker-b'', ''worker-c'']"
  let ?ports = "[5432, 5433, 5434] :: 32 word list"
  let ?commands = "[''SELECT 1'', ''SELECT 2'', ''SELECT 3'']"
  note flags = executors_open_forced_new_connections
      [of one_down_cluster 3 ?names ?ports ?commands 3]
  from parallel_returns_complete [OF one_down_cluster_complete [of 3 True],
      of ?names ?ports ?commands]
  obtain pst where par: "ExecuteCommandsInParallelAndStoreResults one_down_cluster 3
      ?names ?ports ?commands (replicate 3 False) (replicate 3 []) 3 = Some (None, pst)"
    by blast
  from flags [THEN conjunct1, rule_format, OF par]
  have p: "opening_flags (connectionLog pst) = replicate 3 FORCE_NEW_CONNECTION"
    by (rule conjunct1)
  from sequential_returns_complete [OF one_down_cluster_complete [of 3 False],
      of ?names ?ports ?commands]
  obtain st where seq: "ExecuteCommandsAndStoreResults one_down_cluster
      ?names ?ports ?commands (replicate 3 False) (replicate 3 []) 3 = (None, st)"
    by blast
  from flags [THEN conjunct2, THEN conjunct1, rule_format, OF seq]
  have s: "opening_flags (connectionLog st) = replicate 3 FORCE_NEW_CONNECTION"
    by auto
  from par p seq s show ?thesis by blast
qed




end
